theory Spec2Isabelle
  imports Main "HOL-Library.AList" "HOL-Library.Multiset"
begin

section \<open>Data model (types.ts)\<close>

text \<open>
  JavaScript numbers that carry millisecond timestamps, durations, priorities and counters
  are modelled as \<open>int\<close>. A JavaScript \<open>Map\<close> is an association list in insertion order
  with distinct keys: \<open>Map.set\<close> is \<open>AList.update\<close> (in place for a known key, appended
  for a new one), \<open>Map.delete\<close> is \<open>AList.delete\<close>, \<open>Map.get\<close> is \<open>map_of\<close> and
  \<open>Map.size\<close> is \<open>length\<close>. \<open>Date.now()\<close> is an explicit argument \<open>now\<close>: one
  reading of the clock for all the reads of one synchronous call. A function that changes
  an object returns the changed object beside its result.
\<close>

record Locator =
  loc_using :: string
  loc_value :: string

text \<open>Registration parameters (interface \<open>UIWatcher\<close>); an optional field is \<open>None\<close> when
  it is \<open>undefined\<close> or \<open>null\<close>.\<close>

record UIWatcher =
  uw_name :: string
  uw_priority :: "int option"
  uw_referenceLocator :: Locator
  uw_actionLocator :: Locator
  uw_duration :: int
  uw_stopOnFound :: "bool option"
  uw_cooldownMs :: "int option"

datatype watcher_status = Active | Inactive

record WatcherState =
  name :: string
  priority :: int
  referenceLocator :: Locator
  actionLocator :: Locator
  duration :: int
  stopOnFound :: bool
  cooldownMs :: int
  registeredAt :: int
  expiresAt :: int
  status :: watcher_status
  triggerCount :: int
  lastTriggeredAt :: "int option"

text \<open>Every failure of the program is a JavaScript \<open>Error\<close>; the constructors name the
  throw sites, and \<open>DriverError\<close> carries the fields the plugin inspects.\<close>

record js_error =
  err_name :: string
  err_error :: string
  err_message :: "string option"

datatype error =
    ValidationError string
  | DuplicateNameError string
  | CapacityError
  | NoSessionError
  | CacheMissError
  | IndexMissError int
  | TypeError
  | DriverError js_error

section \<open>WatcherStore (watcher-store.ts)\<close>

definition MAX_WATCHERS :: nat where
  "MAX_WATCHERS = 5"

record WatcherStore =
  watchers :: "(string \<times> WatcherState) list"
  enabled :: bool

definition new_WatcherStore :: WatcherStore where
  "new_WatcherStore = \<lparr>watchers = [], enabled = True\<rparr>"

text \<open>\<open>getActiveWatchers\<close>: one pass over the entries splits them into the unexpired
  watchers and the expired names, then every expired name is deleted from storage.\<close>

definition getActiveWatchers :: "WatcherStore \<Rightarrow> int \<Rightarrow> WatcherState list \<times> WatcherStore" where
  "getActiveWatchers s now =
     (let activeWatchers = map snd (filter (\<lambda>(n, w). \<not> now \<ge> expiresAt w) (watchers s));
          expiredNames = map fst (filter (\<lambda>(n, w). now \<ge> expiresAt w) (watchers s))
      in (activeWatchers, s\<lparr>watchers := fold AList.delete expiredNames (watchers s)\<rparr>))"

definition add :: "WatcherStore \<Rightarrow> UIWatcher \<Rightarrow> int \<Rightarrow> (error + WatcherState) \<times> WatcherStore" where
  "add s watcher now =
     (if map_of (watchers s) (uw_name watcher) \<noteq> None
      then (Inl (DuplicateNameError (uw_name watcher)), s)
      else
        let (active, s1) = getActiveWatchers s now;
            activeCount = length active
        in if activeCount \<ge> MAX_WATCHERS then (Inl CapacityError, s1)
           else
             let watcherState = \<lparr>
                   name = uw_name watcher,
                   priority = (case uw_priority watcher of None \<Rightarrow> 0 | Some p \<Rightarrow> p),
                   referenceLocator = uw_referenceLocator watcher,
                   actionLocator = uw_actionLocator watcher,
                   duration = uw_duration watcher,
                   stopOnFound = (case uw_stopOnFound watcher of None \<Rightarrow> False | Some b \<Rightarrow> b),
                   cooldownMs = (case uw_cooldownMs watcher of None \<Rightarrow> 0 | Some c \<Rightarrow> c),
                   registeredAt = now,
                   expiresAt = now + uw_duration watcher,
                   status = Active,
                   triggerCount = 0,
                   lastTriggeredAt = None \<rparr>
             in (Inr watcherState,
                 s1\<lparr>watchers := AList.update (uw_name watcher) watcherState (watchers s1)\<rparr>))"


definition get :: "WatcherStore \<Rightarrow> string \<Rightarrow> WatcherState option" where
  "get s n = map_of (watchers s) n"

definition list_all_watchers :: "WatcherStore \<Rightarrow> WatcherState list" where
  "list_all_watchers s = map snd (watchers s)"

text \<open>The comparator handed to \<open>Array.prototype.sort\<close> in \<open>getSortedWatchers\<close>.\<close>

definition compare_watchers :: "WatcherState \<Rightarrow> WatcherState \<Rightarrow> int" where
  "compare_watchers a b =
     (if priority a \<noteq> priority b then priority b - priority a
      else registeredAt a - registeredAt b)"

text \<open>\<open>Array.prototype.sort\<close> is a stable comparison sort: an element is placed before
  the first element it does not compare greater than, so elements that compare equal keep
  their input order.\<close>

fun insert_by :: "('a \<Rightarrow> 'a \<Rightarrow> int) \<Rightarrow> 'a \<Rightarrow> 'a list \<Rightarrow> 'a list" where
  "insert_by cmp x [] = [x]"
| "insert_by cmp x (y # ys) = (if cmp x y \<le> 0 then x # y # ys else y # insert_by cmp x ys)"

definition array_sort :: "('a \<Rightarrow> 'a \<Rightarrow> int) \<Rightarrow> 'a list \<Rightarrow> 'a list" where
  "array_sort cmp xs = foldr (insert_by cmp) xs []"

definition getSortedWatchers :: "WatcherStore \<Rightarrow> int \<Rightarrow> WatcherState list \<times> WatcherStore" where
  "getSortedWatchers s now =
     (let (activeWatchers, s1) = getActiveWatchers s now
      in (array_sort compare_watchers activeWatchers, s1))"

definition clear :: "WatcherStore \<Rightarrow> nat \<times> WatcherStore" where
  "clear s = (length (watchers s), s\<lparr>watchers := []\<rparr>)"

definition markInactive :: "WatcherStore \<Rightarrow> string \<Rightarrow> WatcherStore" where
  "markInactive s n =
     s\<lparr>watchers := AList.map_entry n (\<lambda>w. w\<lparr>status := Inactive\<rparr>) (watchers s)\<rparr>"

definition incrementTriggerCount :: "WatcherStore \<Rightarrow> string \<Rightarrow> int \<Rightarrow> WatcherStore" where
  "incrementTriggerCount s n now =
     s\<lparr>watchers := AList.map_entry n
          (\<lambda>w. w\<lparr>triggerCount := triggerCount w + 1, lastTriggeredAt := Some now\<rparr>) (watchers s)\<rparr>"

definition updateLastTriggered :: "WatcherStore \<Rightarrow> string \<Rightarrow> int \<Rightarrow> WatcherStore" where
  "updateLastTriggered s n now =
     s\<lparr>watchers := AList.map_entry n (\<lambda>w. w\<lparr>lastTriggeredAt := Some now\<rparr>) (watchers s)\<rparr>"

definition disable :: "WatcherStore \<Rightarrow> WatcherStore" where
  "disable s = s\<lparr>enabled := False\<rparr>"

definition enable :: "WatcherStore \<Rightarrow> WatcherStore" where
  "enable s = s\<lparr>enabled := True\<rparr>"

definition isEnabled :: "WatcherStore \<Rightarrow> bool" where
  "isEnabled s = enabled s"

text \<open>The order the specification asks of the sorted snapshot: priority never increases,
  and among equal priorities the registration time never decreases.\<close>

definition priority_fifo :: "WatcherState \<Rightarrow> WatcherState \<Rightarrow> bool" where
  "priority_fifo a b =
     (priority a \<ge> priority b \<and> (priority a = priority b \<longrightarrow> registeredAt a \<le> registeredAt b))"

definition unexpired :: "int \<Rightarrow> WatcherState \<Rightarrow> bool" where
  "unexpired now w = (now < expiresAt w)"

section \<open>Validators (validators.ts) and the register command (commands/register.ts)\<close>

text \<open>
  The parameters of a command arrive as an untyped JavaScript value. Only the shapes the
  validators tell apart are modelled; numbers are integers (the values JSON carries for
  millisecond counts), so \<open>NaN\<close> and the infinities have no counterpart.
\<close>

datatype jsval =
    JUndefined
  | JNull
  | JBool bool
  | JNum int
  | JStr string
  | JObj "(string \<times> jsval) list"

datatype jstype = TUndefined | TObject | TBoolean | TNumber | TString

fun typeof :: "jsval \<Rightarrow> jstype" where
  "typeof JUndefined = TUndefined"
| "typeof JNull = TObject"
| "typeof (JBool b) = TBoolean"
| "typeof (JNum n) = TNumber"
| "typeof (JStr s) = TString"
| "typeof (JObj fs) = TObject"

fun truthy :: "jsval \<Rightarrow> bool" where
  "truthy JUndefined = False"
| "truthy JNull = False"
| "truthy (JBool b) = b"
| "truthy (JNum n) = (n \<noteq> 0)"
| "truthy (JStr s) = (s \<noteq> [])"
| "truthy (JObj fs) = True"

text \<open>Property access \<open>v.k\<close>; the validators only reach it on objects.\<close>

fun jsget :: "jsval \<Rightarrow> string \<Rightarrow> jsval" where
  "jsget (JObj fs) k = (case map_of fs k of Some v \<Rightarrow> v | None \<Rightarrow> JUndefined)"
| "jsget v k = JUndefined"

definition nullish :: "jsval \<Rightarrow> bool" where
  "nullish v = (v = JUndefined \<or> v = JNull)"

text \<open>\<open>toLowerCase\<close> on ASCII: an upper-case letter (codes 65 to 90) gets bit 5 set,
  which adds 32 to its code.\<close>

definition to_lower_char :: "char \<Rightarrow> char" where
  "to_lower_char c =
     (let n = (of_char c :: nat)
      in if 65 \<le> n \<and> n \<le> 90
         then (case c of Char b0 b1 b2 b3 b4 b5 b6 b7 \<Rightarrow> Char b0 b1 b2 b3 b4 True b6 b7)
         else c)"

definition toLowerCase :: "string \<Rightarrow> string" where
  "toLowerCase s = map to_lower_char s"

text \<open>The white space \<open>String.prototype.trim\<close> strips. A \<open>char\<close> stands for a code unit
  below 256: tab, line feed, vertical tab, form feed, carriage return (9 to 13), space (32)
  and the no-break space (160). The white space beyond 255 has no \<open>char\<close>.\<close>

definition is_space :: "char \<Rightarrow> bool" where
  "is_space c = (let n = (of_char c :: nat) in (9 \<le> n \<and> n \<le> 13) \<or> n = 32 \<or> n = 160)"

definition trim :: "string \<Rightarrow> string" where
  "trim s = rev (dropWhile is_space (rev (dropWhile is_space s)))"

definition MAX_DURATION_MS :: int where
  "MAX_DURATION_MS = 60000"

definition VALID_LOCATOR_STRATEGIES :: "string list" where
  "VALID_LOCATOR_STRATEGIES =
     [''id'', ''accessibility id'', ''class name'', ''xpath'', ''name'',
      ''-android uiautomator'', ''-ios predicate string'', ''-ios class chain'',
      ''css selector'']"

text \<open>A validator returns the message of the \<open>Error\<close> it throws, or \<open>None\<close> when it
  returns normally. The messages are the source's, without their quotation marks and with
  \<open><=\<close> and \<open>>=\<close> for the two comparison signs.\<close>

definition validateLocator :: "jsval \<Rightarrow> string \<Rightarrow> string option" where
  "validateLocator locator fieldName =
     (if \<not> truthy locator \<or> typeof locator \<noteq> TObject
        then Some (fieldName @ '' is required'')
      else if \<not> truthy (jsget locator ''using'')
        then Some (''using is mandatory for '' @ fieldName)
      else if typeof (jsget locator ''using'') \<noteq> TString
        then Some (''using must be string for '' @ fieldName @ '' '')
      else if \<not> truthy (jsget locator ''value'')
        then Some (''value is mandatory for '' @ fieldName)
      else if typeof (jsget locator ''value'') \<noteq> TString
        then Some (''value must be string for '' @ fieldName @ '' '')
      else (case jsget locator ''using'' of
              JStr u \<Rightarrow>
                if toLowerCase u \<in> set VALID_LOCATOR_STRATEGIES then None
                else Some (''Invalid locator strategy for '' @ fieldName)
            | _ \<Rightarrow> Some (''using must be string for '' @ fieldName @ '' '')))"

definition validate_name :: "jsval \<Rightarrow> string option" where
  "validate_name params =
     (if \<not> truthy (jsget params ''name'') then Some ''UIWatcher name is required''
      else (case jsget params ''name'' of
              JStr n \<Rightarrow> if trim n = [] then Some ''UIWatcher name is empty'' else None
            | _ \<Rightarrow> Some ''UIWatcher name must be string type''))"

definition validate_locators :: "jsval \<Rightarrow> string option" where
  "validate_locators params =
     (if \<not> truthy (jsget params ''referenceLocator'')
        then Some ''UIWatcher referenceLocator is required''
      else (case validateLocator (jsget params ''referenceLocator'') ''referenceLocator'' of
              Some m \<Rightarrow> Some m
            | None \<Rightarrow>
                if \<not> truthy (jsget params ''actionLocator'')
                  then Some ''UIWatcher actionLocator is required''
                else validateLocator (jsget params ''actionLocator'') ''actionLocator''))"

definition validate_duration :: "jsval \<Rightarrow> string option" where
  "validate_duration params =
     (if jsget params ''duration'' = JUndefined \<or> jsget params ''duration'' = JNull
        then Some ''UIWatcher duration is required''
      else (case jsget params ''duration'' of
              JNum d \<Rightarrow>
                if d \<le> 0 then Some ''UIWatcher duration must be a positive number''
                else if d > MAX_DURATION_MS then Some ''UIWatcher duration must be <= 60 seconds''
                else None
            | _ \<Rightarrow> Some ''UIWatcher duration must be a positive number''))"

definition validate_optional :: "jsval \<Rightarrow> string option" where
  "validate_optional params =
     (if \<not> nullish (jsget params ''priority'') \<and> typeof (jsget params ''priority'') \<noteq> TNumber
        then Some ''UIWatcher priority must be a number''
      else if \<not> nullish (jsget params ''stopOnFound'')
              \<and> typeof (jsget params ''stopOnFound'') \<noteq> TBoolean
        then Some ''UIWatcher stopOnFound must be a boolean''
      else if \<not> nullish (jsget params ''cooldownMs'') then
        (case jsget params ''cooldownMs'' of
           JNum c \<Rightarrow> if c < 0 then Some ''UIWatcher cooldownMs must be >= 0'' else None
         | _ \<Rightarrow> Some ''UIWatcher cooldownMs must be a number'')
      else None)"

text \<open>\<open>validateWatcherParams\<close>: the checks of the source in their order (name, the two
  locators, duration, then the optional fields); the first failing check throws.\<close>

definition validateWatcherParams :: "jsval \<Rightarrow> string option" where
  "validateWatcherParams params =
     (if \<not> truthy params \<or> typeof params \<noteq> TObject then Some ''Invalid watcher parameters''
      else (case validate_name params of
              Some m \<Rightarrow> Some m
            | None \<Rightarrow>
               (case validate_locators params of
                  Some m \<Rightarrow> Some m
                | None \<Rightarrow>
                   (case validate_duration params of
                      Some m \<Rightarrow> Some m
                    | None \<Rightarrow> validate_optional params))))"

text \<open>Reading the validated parameters at the static type \<open>UIWatcher\<close> that \<open>store.add\<close>
  declares. The result is \<open>None\<close> where a field does not have its declared type, which
  validated parameters never do (lemma \<open>validated_typed\<close>).\<close>

definition as_Locator :: "jsval \<Rightarrow> Locator option" where
  "as_Locator v =
     (case (jsget v ''using'', jsget v ''value'') of
        (JStr u, JStr x) \<Rightarrow> Some \<lparr>loc_using = u, loc_value = x\<rparr>
      | _ \<Rightarrow> None)"

definition as_opt_int :: "jsval \<Rightarrow> int option option" where
  "as_opt_int v =
     (case v of JUndefined \<Rightarrow> Some None | JNull \<Rightarrow> Some None | JNum n \<Rightarrow> Some (Some n)
      | _ \<Rightarrow> None)"

definition as_opt_bool :: "jsval \<Rightarrow> bool option option" where
  "as_opt_bool v =
     (case v of JUndefined \<Rightarrow> Some None | JNull \<Rightarrow> Some None | JBool b \<Rightarrow> Some (Some b)
      | _ \<Rightarrow> None)"

definition as_UIWatcher :: "jsval \<Rightarrow> UIWatcher option" where
  "as_UIWatcher p =
     (case (jsget p ''name'', as_Locator (jsget p ''referenceLocator''),
            as_Locator (jsget p ''actionLocator''), jsget p ''duration'',
            as_opt_int (jsget p ''priority''), as_opt_bool (jsget p ''stopOnFound''),
            as_opt_int (jsget p ''cooldownMs'')) of
        (JStr n, Some rl, Some al, JNum d, Some pr, Some sf, Some cd) \<Rightarrow>
          Some \<lparr>uw_name = n, uw_priority = pr, uw_referenceLocator = rl,
                uw_actionLocator = al, uw_duration = d, uw_stopOnFound = sf,
                uw_cooldownMs = cd\<rparr>
      | _ \<Rightarrow> None)"

record RegisteredWatcher =
  rw_name :: string
  rw_priority :: int
  rw_registeredAt :: int
  rw_expiresAt :: int
  rw_status :: watcher_status

text \<open>\<open>registerUIWatcher\<close>: validate, then \<open>store.add\<close>, then report the stored state.
  The store that comes back with an error is the store as the failed call left it.\<close>

definition registerUIWatcher ::
  "WatcherStore \<Rightarrow> jsval \<Rightarrow> int \<Rightarrow> (error + RegisteredWatcher) \<times> WatcherStore" where
  "registerUIWatcher store params now =
     (case validateWatcherParams params of
        Some m \<Rightarrow> (Inl (ValidationError m), store)
      | None \<Rightarrow>
         (case as_UIWatcher params of
            None \<Rightarrow> (Inl TypeError, store)
          | Some watcher \<Rightarrow>
             (case add store watcher now of
                (Inl e, store1) \<Rightarrow> (Inl e, store1)
              | (Inr watcherState, store1) \<Rightarrow>
                  (Inr \<lparr>rw_name = name watcherState,
                        rw_priority = priority watcherState,
                        rw_registeredAt = registeredAt watcherState,
                        rw_expiresAt = expiresAt watcherState,
                        rw_status = status watcherState\<rparr>, store1))))"

definition listUIWatchers :: "WatcherStore \<Rightarrow> int \<Rightarrow> (WatcherState list \<times> nat) \<times> WatcherStore" where
  "listUIWatchers store now =
     (let (activeWatchers, store1) = getActiveWatchers store now
      in ((activeWatchers, length activeWatchers), store1))"

text \<open>What the specification asks of a duration: a number, strictly positive, at most the
  maximum.\<close>

definition duration_ok :: "jsval \<Rightarrow> bool" where
  "duration_ok v = (case v of JNum d \<Rightarrow> 0 < d \<and> d \<le> MAX_DURATION_MS | _ \<Rightarrow> False)"

section \<open>Element identifiers (utils.ts)\<close>

text \<open>An element as a driver returns it: \<open>null\<close> or \<open>undefined\<close>, a bare identifier
  string, or an object that may carry the W3C key and the JSONWP key \<open>ELEMENT\<close>.\<close>

datatype element =
    ElNull
  | ElString string
  | ElObject (el_w3c: "string option") (el_jsonwp: "string option")

fun extractElementId :: "element \<Rightarrow> string option" where
  "extractElementId ElNull = None"
| "extractElementId (ElString s) = (if s = [] then None else Some s)"
| "extractElementId (ElObject w j) =
     (case w of
        Some x \<Rightarrow>
          if x \<noteq> [] then Some x
          else (case j of Some y \<Rightarrow> if y \<noteq> [] then Some y else None | None \<Rightarrow> None)
      | None \<Rightarrow> (case j of Some y \<Rightarrow> if y \<noteq> [] then Some y else None | None \<Rightarrow> None))"

section \<open>ElementReferenceCache (element-cache.ts)\<close>

datatype CachedRef =
    CachedElementRef (ref_using: string) (ref_value: string) (createdAt: int)
  | CachedElementsRef (ref_using: string) (ref_value: string) (ref_index: nat) (createdAt: int)

record CacheConfig =
  maxCacheEntries :: int
  elementTtlMs :: int

text \<open>\<open>accessOrder\<close> is the recency order, least recently used first. A \<open>Set\<close> of the
  reverse index is a duplicate-free list in insertion order.\<close>

record ElementReferenceCache =
  cache :: "(string \<times> CachedRef) list"
  idMappings :: "(string \<times> string) list"
  reverseIndex :: "(string \<times> string list) list"
  accessOrder :: "string list"
  config :: CacheConfig

definition new_ElementReferenceCache :: "CacheConfig \<Rightarrow> ElementReferenceCache" where
  "new_ElementReferenceCache cfg =
     \<lparr>cache = [], idMappings = [], reverseIndex = [], accessOrder = [], config = cfg\<rparr>"

text \<open>\<open>indexOf\<close> and \<open>splice\<close> drop the first occurrence, \<open>push\<close> appends.\<close>

definition updateAccessOrder :: "ElementReferenceCache \<Rightarrow> string \<Rightarrow> ElementReferenceCache" where
  "updateAccessOrder c elementId = c\<lparr>accessOrder := remove1 elementId (accessOrder c) @ [elementId]\<rparr>"

definition removeFromCache :: "ElementReferenceCache \<Rightarrow> string \<Rightarrow> ElementReferenceCache" where
  "removeFromCache c elementId =
     c\<lparr>cache := AList.delete elementId (cache c),
       accessOrder := remove1 elementId (accessOrder c)\<rparr>"

text \<open>\<open>evictLRU\<close>: nothing on an empty order; otherwise the head leaves the order, and
  leaves the cache when it is a truthy (non-empty) string.\<close>

definition evictLRU :: "ElementReferenceCache \<Rightarrow> ElementReferenceCache" where
  "evictLRU c =
     (case accessOrder c of
        [] \<Rightarrow> c
      | lruId # rest \<Rightarrow>
          if lruId \<noteq> [] then c\<lparr>cache := AList.delete lruId (cache c), accessOrder := rest\<rparr>
          else c\<lparr>accessOrder := rest\<rparr>)"

text \<open>The loop \<open>while (cache.size >= maxCacheEntries) evictLRU()\<close>. It spins forever when
  the order is empty and the size is still at the maximum, so it is a partial function:
  \<open>None\<close> is the run that does not return.\<close>

partial_function (option) evict_while :: "ElementReferenceCache \<Rightarrow> ElementReferenceCache option" where
  "evict_while c =
     (if int (length (cache c)) \<ge> maxCacheEntries (config c) then evict_while (evictLRU c)
      else Some c)"

definition addToCache ::
  "ElementReferenceCache \<Rightarrow> string \<Rightarrow> CachedRef \<Rightarrow> ElementReferenceCache option" where
  "addToCache c elementId ref =
     (case evict_while c of
        None \<Rightarrow> None
      | Some c1 \<Rightarrow>
          Some (updateAccessOrder (c1\<lparr>cache := AList.update elementId ref (cache c1)\<rparr>) elementId))"

definition cacheElement ::
  "ElementReferenceCache \<Rightarrow> string \<Rightarrow> string \<Rightarrow> string \<Rightarrow> int \<Rightarrow> ElementReferenceCache option" where
  "cacheElement c elementId u v now = addToCache c elementId (CachedElementRef u v now)"

fun cacheElements_from ::
  "nat \<Rightarrow> element list \<Rightarrow> string \<Rightarrow> string \<Rightarrow> int \<Rightarrow> ElementReferenceCache
     \<Rightarrow> ElementReferenceCache option" where
  "cacheElements_from i [] u v now c = Some c"
| "cacheElements_from i (el # els) u v now c =
     (case extractElementId el of
        None \<Rightarrow> cacheElements_from (i + 1) els u v now c
      | Some elementId \<Rightarrow>
         (case addToCache c elementId (CachedElementsRef u v i now) of
            None \<Rightarrow> None
          | Some c1 \<Rightarrow> cacheElements_from (i + 1) els u v now c1))"

definition cacheElements ::
  "ElementReferenceCache \<Rightarrow> element list \<Rightarrow> string \<Rightarrow> string \<Rightarrow> int
     \<Rightarrow> ElementReferenceCache option" where
  "cacheElements c elements u v now = cacheElements_from 0 elements u v now c"

definition isExpired :: "ElementReferenceCache \<Rightarrow> CachedRef \<Rightarrow> int \<Rightarrow> bool" where
  "isExpired c ref now = (now - createdAt ref \<ge> elementTtlMs (config c))"

definition getRef ::
  "ElementReferenceCache \<Rightarrow> string \<Rightarrow> int \<Rightarrow> CachedRef option \<times> ElementReferenceCache" where
  "getRef c elementId now =
     (case map_of (cache c) elementId of
        None \<Rightarrow> (None, c)
      | Some ref \<Rightarrow>
          if isExpired c ref now then (None, removeFromCache c elementId)
          else (Some ref, updateAccessOrder c elementId))"

definition addToReverseIndex ::
  "(string \<times> string list) list \<Rightarrow> string \<Rightarrow> string \<Rightarrow> (string \<times> string list) list" where
  "addToReverseIndex r oldId newId =
     (let r1 = (if map_of r newId = None then AList.update newId [] r else r)
      in AList.map_entry newId (\<lambda>S. if oldId \<in> set S then S else S @ [oldId]) r1)"

definition repoint :: "string \<Rightarrow> string \<Rightarrow> ElementReferenceCache \<Rightarrow> ElementReferenceCache" where
  "repoint newId sourceId c =
     c\<lparr>idMappings := AList.update sourceId newId (idMappings c),
       reverseIndex := addToReverseIndex (reverseIndex c) sourceId newId\<rparr>"

text \<open>\<open>setMapping\<close>. Step 1: every source the reverse index lists for \<open>oldId\<close> is
  pointed at \<open>newId\<close>, then the reverse entry of \<open>oldId\<close> is dropped. Step 2: the new
  mapping itself.\<close>

definition setMapping :: "ElementReferenceCache \<Rightarrow> string \<Rightarrow> string \<Rightarrow> ElementReferenceCache" where
  "setMapping c oldId newId =
     (let c1 = (case map_of (reverseIndex c) oldId of
                  None \<Rightarrow> c
                | Some pointingToOld \<Rightarrow>
                    (let c2 = fold (repoint newId) pointingToOld c
                     in c2\<lparr>reverseIndex := AList.delete oldId (reverseIndex c2)\<rparr>))
      in repoint newId oldId c1)"

definition getMappedId :: "ElementReferenceCache \<Rightarrow> string \<Rightarrow> string option" where
  "getMappedId c elementId = map_of (idMappings c) elementId"

definition cleanup :: "ElementReferenceCache \<Rightarrow> int \<Rightarrow> ElementReferenceCache" where
  "cleanup c now =
     (let toRemove = map fst (filter (\<lambda>(elementId, ref). now - createdAt ref \<ge> elementTtlMs (config c))
                                     (cache c))
      in fold (\<lambda>elementId c1. removeFromCache c1 elementId) toRemove c)"

definition clear_cache :: "ElementReferenceCache \<Rightarrow> ElementReferenceCache" where
  "clear_cache c = c\<lparr>cache := [], idMappings := [], reverseIndex := [], accessOrder := []\<rparr>"

definition cache_size :: "ElementReferenceCache \<Rightarrow> nat" where
  "cache_size c = length (cache c)"

definition mappingsCount :: "ElementReferenceCache \<Rightarrow> nat" where
  "mappingsCount c = length (idMappings c)"

text \<open>The states the cache reaches from \<open>new_ElementReferenceCache\<close> when it is keyed by
  the identifiers \<open>extractElementId\<close> yields (never the empty string): the recency order
  lists exactly the cached keys, once each.\<close>

definition cache_inv :: "ElementReferenceCache \<Rightarrow> bool" where
  "cache_inv c =
     (distinct (map fst (cache c)) \<and> distinct (accessOrder c)
      \<and> set (accessOrder c) = fst ` set (cache c) \<and> [] \<notin> set (accessOrder c))"

text \<open>The mapping table is single-hop when no identifier that is a target has a mapping of
  its own.\<close>

definition single_hop :: "ElementReferenceCache \<Rightarrow> bool" where
  "single_hop c = (\<forall>k v. getMappedId c k = Some v \<longrightarrow> getMappedId c v = None)"

text \<open>The identifiers the reverse index lists for a target.\<close>

definition pointing_to :: "ElementReferenceCache \<Rightarrow> string \<Rightarrow> string set" where
  "pointing_to c v = (case map_of (reverseIndex c) v of None \<Rightarrow> {} | Some S \<Rightarrow> set S)"

text \<open>The reverse index lists, for every target, at least the identifiers mapped to it, and
  lists only identifiers that have a mapping.\<close>

definition reverse_ok :: "ElementReferenceCache \<Rightarrow> bool" where
  "reverse_ok c =
     ((\<forall>k v. getMappedId c k = Some v \<longrightarrow> k \<in> pointing_to c v)
      \<and> (\<forall>k v. k \<in> pointing_to c v \<longrightarrow> getMappedId c k \<noteq> None))"

text \<open>A sequence of \<open>setMapping\<close> calls, and the sequences in which every new identifier
  is fresh: different from the old one and not itself mapped at the time of the call.\<close>

fun setMappings :: "ElementReferenceCache \<Rightarrow> (string \<times> string) list \<Rightarrow> ElementReferenceCache" where
  "setMappings c [] = c"
| "setMappings c ((oldId, newId) # ps) = setMappings (setMapping c oldId newId) ps"

fun fresh_targets :: "ElementReferenceCache \<Rightarrow> (string \<times> string) list \<Rightarrow> bool" where
  "fresh_targets c [] = True"
| "fresh_targets c ((oldId, newId) # ps) =
     (newId \<noteq> oldId \<and> getMappedId c newId = None \<and> fresh_targets (setMapping c oldId newId) ps)"

section \<open>The automation driver and the run-time environment\<close>

text \<open>
  The driver is external: each of its operations is a function of an abstract world \<open>'w\<close>
  that returns a result or a thrown error together with the next world. The environment
  of a run carries the world, the clock that \<open>Date.now()\<close> reads, and a trace: every
  driver call, every call of the host continuation \<open>next\<close> and every \<open>setTimeout\<close> wait,
  in order, plus one marker per invocation of \<open>checkWatchers\<close>.
\<close>

datatype jsarg = AStr string | AElem element | AVal jsval

record 'w driver =
  sessionId :: "string option"
  drv_findElement :: "string \<Rightarrow> string \<Rightarrow> 'w \<Rightarrow> (js_error + element) \<times> 'w"
  drv_findElements :: "string \<Rightarrow> string \<Rightarrow> 'w \<Rightarrow> (js_error + element list) \<times> 'w"
  drv_command :: "string \<Rightarrow> jsarg list \<Rightarrow> 'w \<Rightarrow> (js_error + jsval) \<times> 'w"

datatype event =
    NextCall
  | FindElementCall string string
  | FindElementsCall string string
  | CommandCall string "jsarg list"
  | Sleep int
  | CheckWatchersCall

record 'w env =
  world :: 'w
  clock :: int
  trace :: "event list"

definition call_next :: "('w \<Rightarrow> (js_error + 'r) \<times> 'w) \<Rightarrow> 'w env \<Rightarrow> (js_error + 'r) \<times> 'w env" where
  "call_next nxt e =
     (let (r, w1) = nxt (world e) in (r, e\<lparr>world := w1, trace := trace e @ [NextCall]\<rparr>))"

definition call_findElement ::
  "'w driver \<Rightarrow> string \<Rightarrow> string \<Rightarrow> 'w env \<Rightarrow> (js_error + element) \<times> 'w env" where
  "call_findElement d u v e =
     (let (r, w1) = drv_findElement d u v (world e)
      in (r, e\<lparr>world := w1, trace := trace e @ [FindElementCall u v]\<rparr>))"

definition call_findElements ::
  "'w driver \<Rightarrow> string \<Rightarrow> string \<Rightarrow> 'w env \<Rightarrow> (js_error + element list) \<times> 'w env" where
  "call_findElements d u v e =
     (let (r, w1) = drv_findElements d u v (world e)
      in (r, e\<lparr>world := w1, trace := trace e @ [FindElementsCall u v]\<rparr>))"

definition call_command ::
  "'w driver \<Rightarrow> string \<Rightarrow> jsarg list \<Rightarrow> 'w env \<Rightarrow> (js_error + jsval) \<times> 'w env" where
  "call_command d cmdName args e =
     (let (r, w1) = drv_command d cmdName args (world e)
      in (r, e\<lparr>world := w1, trace := trace e @ [CommandCall cmdName args]\<rparr>))"

definition sleep :: "int \<Rightarrow> 'w env \<Rightarrow> 'w env" where
  "sleep ms e = e\<lparr>clock := clock e + ms, trace := trace e @ [Sleep ms]\<rparr>"

definition is_driver_call :: "event \<Rightarrow> bool" where
  "is_driver_call ev =
     (case ev of
        FindElementCall u v \<Rightarrow> True
      | FindElementsCall u v \<Rightarrow> True
      | CommandCall c args \<Rightarrow> True
      | _ \<Rightarrow> False)"

definition is_sleep :: "event \<Rightarrow> bool" where
  "is_sleep ev = (case ev of Sleep ms \<Rightarrow> True | _ \<Rightarrow> False)"

section \<open>The matching engine (watcher-checker.ts)\<close>

text \<open>The argument of \<open>driver.click(actionElement.ELEMENT || actionElement)\<close>; reading a
  property of \<open>null\<close> throws, which is \<open>None\<close> here.\<close>

fun click_target :: "element \<Rightarrow> jsarg option" where
  "click_target ElNull = None"
| "click_target (ElString s) = Some (AStr s)"
| "click_target (ElObject w j) =
     (case j of
        Some y \<Rightarrow> if y \<noteq> [] then Some (AStr y) else Some (AElem (ElObject w j))
      | None \<Rightarrow> Some (AElem (ElObject w j)))"

text \<open>
  The body of the loop for one watcher of the snapshot, on the triple of the
  \<open>watcherTriggered\<close> flag, the store and the environment. The snapshot shares its
  watcher objects with the store; a watcher is visited once in a pass and is only changed
  during its own visit, after its \<open>status\<close> has been read, so the snapshot value is the
  object's current state when it is read.
\<close>

definition check_watcher ::
  "'w driver \<Rightarrow> WatcherState \<Rightarrow> bool \<times> WatcherStore \<times> 'w env \<Rightarrow> bool \<times> WatcherStore \<times> 'w env" where
  "check_watcher d watcher acc =
     (case acc of (watcherTriggered, store, e) \<Rightarrow>
        if status watcher = Inactive then (watcherTriggered, store, e)
        else
          (case call_findElement d (loc_using (referenceLocator watcher))
                  (loc_value (referenceLocator watcher)) e of
             (Inl err, e1) \<Rightarrow> (watcherTriggered, store, e1)
           | (Inr referenceElement, e1) \<Rightarrow>
              (case call_findElement d (loc_using (actionLocator watcher))
                      (loc_value (actionLocator watcher)) e1 of
                 (Inl clickError, e2) \<Rightarrow> (watcherTriggered, store, e2)
               | (Inr actionElement, e2) \<Rightarrow>
                  (case click_target actionElement of
                     None \<Rightarrow> (watcherTriggered, store, e2)
                   | Some target \<Rightarrow>
                      (case call_command d ''click'' [target] e2 of
                         (Inl clickError, e3) \<Rightarrow> (watcherTriggered, store, e3)
                       | (Inr done_click, e3) \<Rightarrow>
                           (let store1 = incrementTriggerCount store (name watcher) (clock e3);
                                store2 = (if stopOnFound watcher
                                          then markInactive store1 (name watcher) else store1);
                                e4 = (if cooldownMs watcher > 0
                                      then sleep (cooldownMs watcher) e3 else e3)
                            in (True, store2, e4)))))))"

definition checkWatchers ::
  "'w driver \<Rightarrow> WatcherStore \<Rightarrow> 'w env \<Rightarrow> bool \<times> WatcherStore \<times> 'w env" where
  "checkWatchers d store e0 =
     (let e = e0\<lparr>trace := trace e0 @ [CheckWatchersCall]\<rparr>
      in if \<not> isEnabled store then (False, store, e)
         else
           (let (watcherList, store1) = getSortedWatchers store (clock e)
            in if length watcherList = 0 then (False, store1, e)
               else fold (check_watcher d) watcherList (False, store1, e)))"

section \<open>The plugin (plugin.ts)\<close>

record PluginConfig =
  cfg_maxWatchers :: int
  cfg_maxDurationMs :: int
  cfg_maxCacheEntries :: int
  cfg_elementTtlMs :: int

definition DefaultPluginConfig :: PluginConfig where
  "DefaultPluginConfig =
     \<lparr>cfg_maxWatchers = 5, cfg_maxDurationMs = 60000, cfg_maxCacheEntries = 50,
      cfg_elementTtlMs = 60000\<rparr>"

record UIWatchersPlugin =
  stores :: "(string \<times> WatcherStore) list"
  caches :: "(string \<times> ElementReferenceCache) list"
  pconfig :: PluginConfig

definition new_UIWatchersPlugin :: "PluginConfig \<Rightarrow> UIWatchersPlugin" where
  "new_UIWatchersPlugin cfg = \<lparr>stores = [], caches = [], pconfig = cfg\<rparr>"

definition cache_config :: "PluginConfig \<Rightarrow> CacheConfig" where
  "cache_config cfg =
     \<lparr>maxCacheEntries = cfg_maxCacheEntries cfg, elementTtlMs = cfg_elementTtlMs cfg\<rparr>"

text \<open>\<open>getStore\<close> and \<open>getCache\<close> throw without a truthy session id, create the
  session's object on first use, and return it by reference: the caller's changes are
  written back under the session id that is returned with it.\<close>

definition getStore ::
  "UIWatchersPlugin \<Rightarrow> 'w driver \<Rightarrow> error + (string \<times> WatcherStore \<times> UIWatchersPlugin)" where
  "getStore P d =
     (case sessionId d of
        None \<Rightarrow> Inl NoSessionError
      | Some sid \<Rightarrow>
          if sid = [] then Inl NoSessionError
          else (case map_of (stores P) sid of
                  Some store \<Rightarrow> Inr (sid, store, P)
                | None \<Rightarrow>
                    Inr (sid, new_WatcherStore,
                         P\<lparr>stores := AList.update sid new_WatcherStore (stores P)\<rparr>)))"

definition getCache ::
  "UIWatchersPlugin \<Rightarrow> 'w driver \<Rightarrow> error + (string \<times> ElementReferenceCache \<times> UIWatchersPlugin)" where
  "getCache P d =
     (case sessionId d of
        None \<Rightarrow> Inl NoSessionError
      | Some sid \<Rightarrow>
          if sid = [] then Inl NoSessionError
          else (case map_of (caches P) sid of
                  Some c \<Rightarrow> Inr (sid, c, P)
                | None \<Rightarrow>
                    (let c = new_ElementReferenceCache (cache_config (pconfig P))
                     in Inr (sid, c, P\<lparr>caches := AList.update sid c (caches P)\<rparr>))))"

definition put_store :: "UIWatchersPlugin \<Rightarrow> string \<Rightarrow> WatcherStore \<Rightarrow> UIWatchersPlugin" where
  "put_store P sid store = P\<lparr>stores := AList.update sid store (stores P)\<rparr>"

definition put_cache :: "UIWatchersPlugin \<Rightarrow> string \<Rightarrow> ElementReferenceCache \<Rightarrow> UIWatchersPlugin" where
  "put_cache P sid c = P\<lparr>caches := AList.update sid c (caches P)\<rparr>"

text \<open>\<open>String.prototype.includes\<close>.\<close>

fun str_includes :: "string \<Rightarrow> string \<Rightarrow> bool" where
  "str_includes [] needle = (needle = [])"
| "str_includes (c # cs) needle = (take (length needle) (c # cs) = needle \<or> str_includes cs needle)"

text \<open>The fields a \<open>catch\<close> block reads off a thrown value: a driver error carries its
  own, an \<open>Error\<close> of the plugin has the name \<open>Error\<close> and its message.\<close>

fun error_fields :: "error \<Rightarrow> js_error" where
  "error_fields (DriverError je) = je"
| "error_fields (ValidationError m) =
     \<lparr>err_name = ''Error'', err_error = [], err_message = Some m\<rparr>"
| "error_fields (DuplicateNameError n) =
     \<lparr>err_name = ''Error'', err_error = [], err_message = Some ''UIWatcher already exists''\<rparr>"
| "error_fields CapacityError =
     \<lparr>err_name = ''Error'', err_error = [],
      err_message = Some ''Maximum 5 UI watchers allowed per session''\<rparr>"
| "error_fields NoSessionError =
     \<lparr>err_name = ''Error'', err_error = [], err_message = Some ''No session ID available''\<rparr>"
| "error_fields CacheMissError =
     \<lparr>err_name = ''Error'', err_error = [],
      err_message = Some ''Element reference not found in cache. Unable to recover from StaleElementReferenceException.''\<rparr>"
| "error_fields (IndexMissError i) =
     \<lparr>err_name = ''Error'', err_error = [],
      err_message = Some ''Element at index not found in findElements result.''\<rparr>"
| "error_fields TypeError =
     \<lparr>err_name = ''TypeError'', err_error = [], err_message = Some ''TypeError''\<rparr>"

definition errorName :: "js_error \<Rightarrow> string" where
  "errorName je = (if err_name je \<noteq> [] then err_name je else err_error je)"

definition message_includes :: "js_error \<Rightarrow> string \<Rightarrow> bool" where
  "message_includes je needle =
     (case err_message je of None \<Rightarrow> False | Some m \<Rightarrow> str_includes m needle)"

definition isStaleElementException :: "error \<Rightarrow> bool" where
  "isStaleElementException err =
     (let je = error_fields err
      in str_includes (errorName je) ''StaleElementReference''
         \<or> message_includes je ''stale element reference''
         \<or> message_includes je ''element is not attached'')"

text \<open>The classification \<open>shouldCheckWatchers\<close> of \<open>findElement\<close>: not-found or
  stale-reference.\<close>

definition shouldCheckWatchers :: "error \<Rightarrow> bool" where
  "shouldCheckWatchers err =
     (let je = error_fields err
      in str_includes (errorName je) ''NoSuchElement''
         \<or> str_includes (errorName je) ''StaleElementReference''
         \<or> message_includes je ''An element could not be located'')"

definition el_truthy :: "element \<Rightarrow> bool" where
  "el_truthy el = (case el of ElNull \<Rightarrow> False | ElString s \<Rightarrow> s \<noteq> [] | ElObject w j \<Rightarrow> True)"

text \<open>The block \<open>if (result && using && value) { ... cache.cacheElement(...) }\<close>. The
  outer \<open>option\<close> is \<open>None\<close> when the eviction loop of the cache does not return; \<open>Inl\<close> is
  the error \<open>getCache\<close> throws.\<close>

definition cacheFound ::
  "UIWatchersPlugin \<Rightarrow> 'w driver \<Rightarrow> element \<Rightarrow> string \<Rightarrow> string \<Rightarrow> int
     \<Rightarrow> (error + UIWatchersPlugin) option" where
  "cacheFound P d result u v now =
     (if el_truthy result \<and> u \<noteq> [] \<and> v \<noteq> [] then
        (case extractElementId result of
           None \<Rightarrow> Some (Inr P)
         | Some elementId \<Rightarrow>
            (case getCache P d of
               Inl err \<Rightarrow> Some (Inl err)
             | Inr (sid, c, P1) \<Rightarrow>
                (case cacheElement c elementId u v now of
                   None \<Rightarrow> None
                 | Some c1 \<Rightarrow> Some (Inr (put_cache P1 sid c1)))))
      else Some (Inr P))"

text \<open>The \<open>catch\<close> block of \<open>findElement\<close> for the thrown \<open>error\<close>: when it is
  classified, the inner \<open>try\<close> runs \<open>checkWatchers\<close>, calls \<open>next\<close> again and caches the
  result; whatever the inner \<open>try\<close> throws is replaced by the original error.\<close>

definition findElement_catch ::
  "('w \<Rightarrow> (js_error + element) \<times> 'w) \<Rightarrow> 'w driver \<Rightarrow> string \<Rightarrow> string \<Rightarrow> error
     \<Rightarrow> UIWatchersPlugin \<Rightarrow> 'w env \<Rightarrow> ((error + element) \<times> UIWatchersPlugin \<times> 'w env) option" where
  "findElement_catch nxt d u v err P e1 =
     (if shouldCheckWatchers err then
        (case getStore P d of
           Inl err1 \<Rightarrow> Some (Inl err, P, e1)
         | Inr (sid, store, P1) \<Rightarrow>
            (case checkWatchers d store e1 of
               (triggered, store1, e2) \<Rightarrow>
                 (case call_next nxt e2 of
                    (Inl err2, e3) \<Rightarrow> Some (Inl err, put_store P1 sid store1, e3)
                  | (Inr result, e3) \<Rightarrow>
                     (case cacheFound (put_store P1 sid store1) d result u v (clock e3) of
                        None \<Rightarrow> None
                      | Some (Inl err3) \<Rightarrow> Some (Inl err, put_store P1 sid store1, e3)
                      | Some (Inr P3) \<Rightarrow> Some (Inr result, P3, e3)))))
      else Some (Inl err, P, e1))"

definition findElement ::
  "('w \<Rightarrow> (js_error + element) \<times> 'w) \<Rightarrow> 'w driver \<Rightarrow> string \<Rightarrow> string
     \<Rightarrow> UIWatchersPlugin \<Rightarrow> 'w env \<Rightarrow> ((error + element) \<times> UIWatchersPlugin \<times> 'w env) option" where
  "findElement nxt d u v P e =
     (case call_next nxt e of
        (Inr result, e1) \<Rightarrow>
          (case cacheFound P d result u v (clock e1) of
             None \<Rightarrow> None
           | Some (Inr P1) \<Rightarrow> Some (Inr result, P1, e1)
           | Some (Inl err) \<Rightarrow> findElement_catch nxt d u v err P e1)
      | (Inl je, e1) \<Rightarrow> findElement_catch nxt d u v (DriverError je) P e1)"

text \<open>What \<open>next\<close> of \<open>findElements\<close> returns: an array of elements, or anything else.\<close>

datatype found = FoundArray "element list" | FoundOther jsval

definition cacheFoundMany ::
  "UIWatchersPlugin \<Rightarrow> 'w driver \<Rightarrow> found \<Rightarrow> string \<Rightarrow> string \<Rightarrow> int
     \<Rightarrow> (error + UIWatchersPlugin) option" where
  "cacheFoundMany P d result u v now =
     (case result of
        FoundOther x \<Rightarrow> Some (Inr P)
      | FoundArray els \<Rightarrow>
          if length els > 0 \<and> u \<noteq> [] \<and> v \<noteq> [] then
            (case getCache P d of
               Inl err \<Rightarrow> Some (Inl err)
             | Inr (sid, c, P1) \<Rightarrow>
                (case cacheElements c els u v now of
                   None \<Rightarrow> None
                 | Some c1 \<Rightarrow> Some (Inr (put_cache P1 sid c1))))
          else Some (Inr P))"

text \<open>The three retry sites of \<open>findElements\<close> share their shape: \<open>checkWatchers\<close>,
  \<open>next\<close> again, cache a non-empty array; when anything in it throws, the site yields its
  \<open>fallback\<close> (the original empty array, or the original error).\<close>

definition findElements_retry ::
  "('w \<Rightarrow> (js_error + found) \<times> 'w) \<Rightarrow> 'w driver \<Rightarrow> string \<Rightarrow> string \<Rightarrow> error + found
     \<Rightarrow> UIWatchersPlugin \<Rightarrow> 'w env \<Rightarrow> ((error + found) \<times> UIWatchersPlugin \<times> 'w env) option" where
  "findElements_retry nxt d u v fallback P e1 =
     (case getStore P d of
        Inl err1 \<Rightarrow> Some (fallback, P, e1)
      | Inr (sid, store, P1) \<Rightarrow>
         (case checkWatchers d store e1 of
            (triggered, store1, e2) \<Rightarrow>
              (case call_next nxt e2 of
                 (Inl err2, e3) \<Rightarrow> Some (fallback, put_store P1 sid store1, e3)
               | (Inr retryResult, e3) \<Rightarrow>
                  (case cacheFoundMany (put_store P1 sid store1) d retryResult u v (clock e3) of
                     None \<Rightarrow> None
                   | Some (Inl err3) \<Rightarrow> Some (fallback, put_store P1 sid store1, e3)
                   | Some (Inr P3) \<Rightarrow> Some (Inr retryResult, P3, e3)))))"

definition findElements ::
  "('w \<Rightarrow> (js_error + found) \<times> 'w) \<Rightarrow> 'w driver \<Rightarrow> string \<Rightarrow> string
     \<Rightarrow> UIWatchersPlugin \<Rightarrow> 'w env \<Rightarrow> ((error + found) \<times> UIWatchersPlugin \<times> 'w env) option" where
  "findElements nxt d u v P e =
     (case call_next nxt e of
        (Inl je, e1) \<Rightarrow> findElements_retry nxt d u v (Inl (DriverError je)) P e1
      | (Inr result, e1) \<Rightarrow>
          if result = FoundArray [] then findElements_retry nxt d u v (Inr result) P e1
          else
            (case cacheFoundMany P d result u v (clock e1) of
               None \<Rightarrow> None
             | Some (Inl err) \<Rightarrow> findElements_retry nxt d u v (Inl err) P e1
             | Some (Inr P1) \<Rightarrow> Some (Inr result, P1, e1)))"

text \<open>\<open>cache.getMappedId(elementId) || elementId\<close>.\<close>

definition resolveId :: "ElementReferenceCache \<Rightarrow> string \<Rightarrow> string" where
  "resolveId c elementId =
     (case getMappedId c elementId of
        Some mapped \<Rightarrow> if mapped \<noteq> [] then mapped else elementId
      | None \<Rightarrow> elementId)"

text \<open>Steps 5 and 6 of the recovery: map the old identifier to the new one and call the
  command on the driver with the new identifier in the first argument.\<close>

definition remap_and_retry ::
  "'w driver \<Rightarrow> string \<Rightarrow> string \<Rightarrow> jsarg list \<Rightarrow> error \<Rightarrow> string \<Rightarrow> ElementReferenceCache
     \<Rightarrow> element \<Rightarrow> UIWatchersPlugin \<Rightarrow> 'w env \<Rightarrow> (error + jsval) \<times> UIWatchersPlugin \<times> 'w env" where
  "remap_and_retry d elementId cmdName args err sid c newElement P e =
     (case extractElementId newElement of
        None \<Rightarrow> (Inl err, put_cache P sid c, e)
      | Some newId \<Rightarrow>
          (case call_command d cmdName (AStr newId # tl args) e of
             (Inl je, e1) \<Rightarrow> (Inl (DriverError je), put_cache P sid (setMapping c elementId newId), e1)
           | (Inr r, e1) \<Rightarrow> (Inr r, put_cache P sid (setMapping c elementId newId), e1)))"

text \<open>Steps 3 and 4: look the resolved identifier up in the cache and find the element
  again with the cached locator.\<close>

definition recover_stale ::
  "'w driver \<Rightarrow> string \<Rightarrow> string \<Rightarrow> string \<Rightarrow> jsarg list \<Rightarrow> error \<Rightarrow> string
     \<Rightarrow> ElementReferenceCache \<Rightarrow> UIWatchersPlugin \<Rightarrow> 'w env
     \<Rightarrow> (error + jsval) \<times> UIWatchersPlugin \<times> 'w env" where
  "recover_stale d elementId actualId cmdName args err sid c P e =
     (case getRef c actualId (clock e) of
        (None, c1) \<Rightarrow> (Inl CacheMissError, put_cache P sid c1, e)
      | (Some (CachedElementRef u v t), c1) \<Rightarrow>
          (case call_findElement d u v e of
             (Inl je, e1) \<Rightarrow> (Inl (DriverError je), put_cache P sid c1, e1)
           | (Inr newElement, e1) \<Rightarrow>
               remap_and_retry d elementId cmdName args err sid c1 newElement P e1)
      | (Some (CachedElementsRef u v i t), c1) \<Rightarrow>
          (case call_findElements d u v e of
             (Inl je, e1) \<Rightarrow> (Inl (DriverError je), put_cache P sid c1, e1)
           | (Inr elements, e1) \<Rightarrow>
               if length elements \<le> i then (Inl (IndexMissError (int i)), put_cache P sid c1, e1)
               else remap_and_retry d elementId cmdName args err sid c1 (elements ! i) P e1))"

definition interceptAction ::
  "('w \<Rightarrow> (js_error + jsval) \<times> 'w) \<Rightarrow> 'w driver \<Rightarrow> string \<Rightarrow> string \<Rightarrow> jsarg list
     \<Rightarrow> UIWatchersPlugin \<Rightarrow> 'w env \<Rightarrow> (error + jsval) \<times> UIWatchersPlugin \<times> 'w env" where
  "interceptAction nxt d elementId cmdName args P e =
     (case getCache P d of
        Inl err \<Rightarrow> (Inl err, P, e)
      | Inr (sid, c, P1) \<Rightarrow>
         (let actualId = resolveId c elementId
          in case call_next nxt e of
               (Inr r, e1) \<Rightarrow> (Inr r, P1, e1)
             | (Inl je, e1) \<Rightarrow>
                 if \<not> isStaleElementException (DriverError je) then (Inl (DriverError je), P1, e1)
                 else
                   (case getStore P1 d of
                      Inl err1 \<Rightarrow> (Inl err1, P1, e1)
                    | Inr (ssid, store, P2) \<Rightarrow>
                       (case checkWatchers d store e1 of
                          (watchersTriggered, store1, e2) \<Rightarrow>
                            if \<not> watchersTriggered
                            then (Inl (DriverError je), put_store P2 ssid store1, e2)
                            else recover_stale d elementId actualId cmdName args (DriverError je)
                                   sid c (put_store P2 ssid store1) e2))))"

text \<open>The continuation \<open>next\<close> that the host hands to the plugin for an intercepted element
  command: the command itself, on the driver, with the arguments of the request.\<close>

definition host_next ::
  "'w driver \<Rightarrow> string \<Rightarrow> jsarg list \<Rightarrow> 'w \<Rightarrow> (js_error + jsval) \<times> 'w" where
  "host_next d cmdName args = drv_command d cmdName args"

section \<open>Properties the theorems speak about\<close>

text \<open>The events a pass of the matching engine contributes to the trace: driver calls and
  cooldown waits.\<close>

definition pass_events :: "event list \<Rightarrow> bool" where
  "pass_events evs = list_all (\<lambda>ev. is_driver_call ev \<or> is_sleep ev) evs"

text \<open>A plugin whose caches are in reachable states and whose configured cache capacity is
  at least one, so that the eviction loop of every insertion returns.\<close>

definition plugin_ok :: "UIWatchersPlugin \<Rightarrow> bool" where
  "plugin_ok P =
     (1 \<le> cfg_maxCacheEntries (pconfig P)
      \<and> (\<forall>sid c. map_of (caches P) sid = Some c \<longrightarrow>
            cache_inv c \<and> 1 \<le> maxCacheEntries (config c)))"

section \<open>Concrete registries, caches, drivers and plugins\<close>

definition example_watcher ::
  "string \<Rightarrow> int \<Rightarrow> int \<Rightarrow> int \<Rightarrow> bool \<Rightarrow> int \<Rightarrow> WatcherState" where
  "example_watcher n p reg dur sof cd =
     \<lparr>name = n, priority = p,
      referenceLocator = \<lparr>loc_using = ''id'', loc_value = ''popup''\<rparr>,
      actionLocator = \<lparr>loc_using = ''id'', loc_value = ''close''\<rparr>,
      duration = dur, stopOnFound = sof, cooldownMs = cd, registeredAt = reg,
      expiresAt = reg + dur, status = Active, triggerCount = 0, lastTriggeredAt = None\<rparr>"

text \<open>Four watchers in registration order: one of priority 1, two of priority 10, and one
  of priority 20 that lives for a single millisecond.\<close>

definition example_store :: WatcherStore where
  "example_store =
     \<lparr>watchers =
        [(''low'', example_watcher ''low'' 1 100 30000 False 0),
         (''first'', example_watcher ''first'' 10 101 30000 False 0),
         (''brief'', example_watcher ''brief'' 20 102 1 False 0),
         (''second'', example_watcher ''second'' 10 103 30000 False 0)],
      enabled = True\<rparr>"

text \<open>Five unexpired watchers: the registry at its capacity.\<close>

definition example_full_store :: WatcherStore where
  "example_full_store =
     \<lparr>watchers =
        [(''w1'', example_watcher ''w1'' 0 100 30000 True 0),
         (''w2'', example_watcher ''w2'' 0 101 30000 False 0),
         (''w3'', example_watcher ''w3'' 0 102 30000 False 0),
         (''w4'', example_watcher ''w4'' 0 103 30000 False 0),
         (''w5'', example_watcher ''w5'' 0 104 30000 False 0)],
      enabled = True\<rparr>"

text \<open>One watcher with \<open>stopOnFound = true\<close> and \<open>cooldownMs = 100\<close>.\<close>

definition example_once_store :: WatcherStore where
  "example_once_store =
     \<lparr>watchers = [(''once'', example_watcher ''once'' 0 100 30000 True 100)], enabled = True\<rparr>"

definition example_spec :: "string \<Rightarrow> UIWatcher" where
  "example_spec n =
     \<lparr>uw_name = n, uw_priority = None,
      uw_referenceLocator = \<lparr>loc_using = ''id'', loc_value = ''popup''\<rparr>,
      uw_actionLocator = \<lparr>loc_using = ''id'', loc_value = ''close''\<rparr>,
      uw_duration = 30000, uw_stopOnFound = None, uw_cooldownMs = None\<rparr>"

definition example_params :: "int \<Rightarrow> jsval" where
  "example_params d =
     JObj [(''name'', JStr ''cookie-consent''),
           (''priority'', JNum 10),
           (''referenceLocator'', JObj [(''using'', JStr ''id''), (''value'', JStr ''cookie_banner'')]),
           (''actionLocator'', JObj [(''using'', JStr ''XPath''), (''value'', JStr ''//accept'')]),
           (''duration'', JNum d),
           (''cooldownMs'', JNum 5000)]"

text \<open>A driver that finds every element and on which every command succeeds. Its world is
  the list of the argument lists it has been called with.\<close>

definition example_driver :: "jsarg list list driver" where
  "example_driver =
     \<lparr>sessionId = Some ''session-1'',
      drv_findElement = (\<lambda>u v w. (Inr (ElObject None (Some ''element-1'')), w @ [[AStr u, AStr v]])),
      drv_findElements = (\<lambda>u v w. (Inr [ElObject None (Some ''element-1'')], w @ [[AStr u, AStr v]])),
      drv_command = (\<lambda>c args w. (Inr JUndefined, w @ [AStr c # args]))\<rparr>"

definition example_env :: "jsarg list list env" where
  "example_env = \<lparr>world = [], clock = 200, trace = []\<rparr>"

definition example_cache :: ElementReferenceCache where
  "example_cache = new_ElementReferenceCache (cache_config DefaultPluginConfig)"

text \<open>A cache of capacity three that holds three entries, \<open>elem-1\<close> the least recently
  used.\<close>

definition example_lru_cache :: ElementReferenceCache where
  "example_lru_cache =
     \<lparr>cache = [(''elem-1'', CachedElementRef ''id'' ''btn1'' 1000),
               (''elem-2'', CachedElementRef ''id'' ''btn2'' 1001),
               (''elem-3'', CachedElementRef ''id'' ''btn3'' 1002)],
      idMappings = [], reverseIndex = [],
      accessOrder = [''elem-1'', ''elem-2'', ''elem-3''],
      config = \<lparr>maxCacheEntries = 3, elementTtlMs = 60000\<rparr>\<rparr>"

text \<open>A continuation for a single-element lookup that throws a not-found error on the first
  call and finds the element on every later call.\<close>

definition example_not_found :: js_error where
  "example_not_found =
     \<lparr>err_name = ''NoSuchElementError'', err_error = [],
      err_message = Some ''An element could not be located on the page''\<rparr>"

definition example_lookup_next :: "jsarg list list \<Rightarrow> (js_error + element) \<times> jsarg list list" where
  "example_lookup_next w =
     (if w = [] then (Inl example_not_found, w @ [[AStr ''id'', AStr ''login'']])
      else (Inr (ElObject (Some ''element-7'') None), w @ [[AStr ''id'', AStr ''login'']]))"

definition example_plugin :: UIWatchersPlugin where
  "example_plugin = new_UIWatchersPlugin DefaultPluginConfig"

text \<open>A plugin whose cache for the session maps the identifier \<open>a\<close> to \<open>b\<close>.\<close>

definition example_mapped_plugin :: UIWatchersPlugin where
  "example_mapped_plugin = put_cache example_plugin ''session-1'' (setMapping example_cache ''a'' ''b'')"

text \<open>A plugin whose registry for the session holds the watcher of \<open>example_once_store\<close>.\<close>

definition example_watched_plugin :: UIWatchersPlugin where
  "example_watched_plugin = put_store example_plugin ''session-1'' example_once_store"

text \<open>A stale-reference error, and a continuation for an element command that always throws
  it.\<close>

definition example_stale :: js_error where
  "example_stale =
     \<lparr>err_name = ''StaleElementReferenceError'', err_error = [],
      err_message = Some ''stale element reference''\<rparr>"

definition example_stale_next :: "jsarg list list \<Rightarrow> (js_error + jsval) \<times> jsarg list list" where
  "example_stale_next w = (Inl example_stale, w @ [[AStr ''click'', AStr ''a'']])"

text \<open>A plugin whose cache for the session holds the locator of an element under the
  identifier \<open>a\<close> that the client holds, and whose registry holds the watcher of
  \<open>example_once_store\<close>.\<close>

definition example_cached_cache :: ElementReferenceCache where
  "example_cached_cache =
     \<lparr>cache = [(''a'', CachedElementRef ''id'' ''submit'' 100)], idMappings = [],
      reverseIndex = [], accessOrder = [''a''], config = cache_config DefaultPluginConfig\<rparr>"

definition example_cached_plugin :: UIWatchersPlugin where
  "example_cached_plugin =
     put_store (put_cache example_plugin ''session-1'' example_cached_cache)
       ''session-1'' example_once_store"

text \<open>The cache after one recovery of \<open>a\<close> on \<open>example_driver\<close>: the locator is still cached
  under \<open>a\<close>, and the table maps \<open>a\<close> to the recovered identifier \<open>element-1\<close>. The plugin
  holds this cache and a registry whose watcher is active.\<close>

definition example_recovered_cache :: ElementReferenceCache where
  "example_recovered_cache = setMapping example_cached_cache ''a'' ''element-1''"

definition example_recovered_plugin :: UIWatchersPlugin where
  "example_recovered_plugin =
     put_store (put_cache example_plugin ''session-1'' example_recovered_cache)
       ''session-1'' example_once_store"

section \<open>Ordering of the sorted snapshot\<close>

lemma set_insert_by: "set (insert_by cmp x ys) = insert x (set ys)"
  by (induction ys) auto

lemma mset_insert_by: "mset (insert_by cmp x ys) = add_mset x (mset ys)"
  by (induction ys) auto

lemma mset_array_sort: "mset (array_sort cmp xs) = mset xs"
  by (induction xs) (simp_all add: array_sort_def mset_insert_by)

lemma compare_watchers_le: "compare_watchers a b \<le> 0 \<longleftrightarrow> priority_fifo a b"
  by (auto simp: compare_watchers_def priority_fifo_def)

lemma priority_fifo_total: "\<not> priority_fifo a b \<Longrightarrow> priority_fifo b a"
  by (auto simp: priority_fifo_def)

lemma priority_fifo_trans: "priority_fifo a b \<Longrightarrow> priority_fifo b c \<Longrightarrow> priority_fifo a c"
  by (auto simp: priority_fifo_def)

lemma sorted_insert_by:
  "sorted_wrt priority_fifo ys \<Longrightarrow> sorted_wrt priority_fifo (insert_by compare_watchers x ys)"
proof (induction ys)
  case Nil
  then show ?case by simp
next
  case (Cons y ys)
  show ?case
  proof (cases "compare_watchers x y \<le> 0")
    case True
    then have xy: "priority_fifo x y" by (simp add: compare_watchers_le)
    have "\<forall>z\<in>set ys. priority_fifo x z"
      using Cons.prems xy by (auto intro: priority_fifo_trans)
    with True xy Cons.prems show ?thesis by simp
  next
    case False
    then have yx: "priority_fifo y x"
      by (simp add: compare_watchers_le priority_fifo_total)
    from Cons have "sorted_wrt priority_fifo (insert_by compare_watchers x ys)" by simp
    with False yx Cons.prems show ?thesis by (simp add: set_insert_by)
  qed
qed

lemma sorted_array_sort: "sorted_wrt priority_fifo (array_sort compare_watchers xs)"
  by (induction xs) (simp_all add: array_sort_def sorted_insert_by)

lemma fst_getActiveWatchers:
  "fst (getActiveWatchers s now) = filter (unexpired now) (map snd (watchers s))"
proof -
  have "map snd (filter (\<lambda>(n, w). \<not> now \<ge> expiresAt w) xs) = filter (unexpired now) (map snd xs)"
    for xs :: "(string \<times> WatcherState) list"
    by (induction xs) (auto simp: unexpired_def)
  then show ?thesis by (simp add: getActiveWatchers_def Let_def)
qed

text \<open>
  C7. For every registry state and every clock reading, \<open>getSortedWatchers\<close> returns
  exactly the unexpired watchers of the registry (as a multiset), in a sequence in which the
  priority never increases and, among watchers of equal priority, \<open>registeredAt\<close> never
  decreases.
\<close>

theorem getSortedWatchers_ordered:
  "sorted_wrt priority_fifo (fst (getSortedWatchers s now)) \<and>
   mset (fst (getSortedWatchers s now)) = mset (filter (unexpired now) (map snd (watchers s)))"
proof -
  have "fst (getSortedWatchers s now) = array_sort compare_watchers (fst (getActiveWatchers s now))"
    by (simp add: getSortedWatchers_def split: prod.splits)
  then show ?thesis
    by (simp add: sorted_array_sort mset_array_sort fst_getActiveWatchers)
qed

theorem getSortedWatchers_ordered_witness:
  "sorted_wrt priority_fifo (fst (getSortedWatchers example_store 200)) \<and>
   map name (fst (getSortedWatchers example_store 200)) = [''first'', ''second'', ''low'']"
  using getSortedWatchers_ordered [of example_store 200]
  by (simp add: getSortedWatchers_def getActiveWatchers_def example_store_def
      example_watcher_def array_sort_def compare_watchers_def)

section \<open>The matching engine\<close>

lemmas store_defs =
  add_def get_def getActiveWatchers_def getSortedWatchers_def array_sort_def compare_watchers_def
  markInactive_def incrementTriggerCount_def isEnabled_def disable_def MAX_WATCHERS_def
  new_WatcherStore_def listUIWatchers_def

lemmas example_defs =
  example_store_def example_full_store_def example_once_store_def example_watcher_def
  example_spec_def example_driver_def example_env_def

lemmas engine_defs =
  checkWatchers_def check_watcher_def call_findElement_def call_command_def sleep_def



lemma fst_getSortedWatchers:
  "fst (getSortedWatchers s now) = array_sort compare_watchers (fst (getActiveWatchers s now))"
  by (simp add: getSortedWatchers_def split: prod.splits)

lemma array_sort_Nil: "array_sort cmp [] = []"
  by (simp add: array_sort_def)

text \<open>
  C8. When the registry's gate is disabled, or when every watcher the registry stores has
  expired at the time of the call (in particular when it stores none), \<open>checkWatchers\<close>
  returns false, leaves the driver's world as it was, and adds nothing to the trace but the
  marker of its own invocation: no \<open>findElement\<close>, no \<open>click\<close>, no other driver call.
\<close>

theorem checkWatchers_idle:
  assumes "\<not> isEnabled store \<or> (\<forall>w \<in> set (list_all_watchers store). expiresAt w \<le> clock e)"
  shows "fst (checkWatchers d store e) = False
       \<and> world (snd (snd (checkWatchers d store e))) = world e
       \<and> trace (snd (snd (checkWatchers d store e))) = trace e @ [CheckWatchersCall]
       \<and> filter is_driver_call (trace (snd (snd (checkWatchers d store e))))
           = filter is_driver_call (trace e)"
proof (cases "isEnabled store")
  case False
  then show ?thesis by (simp add: checkWatchers_def Let_def is_driver_call_def)
next
  case True
  with assms have "\<forall>w \<in> set (list_all_watchers store). expiresAt w \<le> clock e" by simp
  then have "filter (unexpired (clock e)) (map snd (watchers store)) = []"
    by (auto simp: filter_empty_conv unexpired_def list_all_watchers_def)
  then have "fst (getSortedWatchers store (clock e)) = []"
    by (simp add: fst_getSortedWatchers fst_getActiveWatchers array_sort_Nil)
  with True show ?thesis
    by (auto simp: checkWatchers_def Let_def is_driver_call_def split: prod.splits)
qed

theorem checkWatchers_idle_witness:
  "\<not> isEnabled (disable example_store)
   \<and> fst (checkWatchers example_driver (disable example_store) example_env) = False
   \<and> world (snd (snd (checkWatchers example_driver (disable example_store) example_env))) = []
   \<and> map expiresAt (list_all_watchers example_store) = [30100, 30101, 103, 30103]
   \<and> clock (example_env\<lparr>clock := 40000\<rparr>) = 40000
   \<and> fst (checkWatchers example_driver example_store (example_env\<lparr>clock := 40000\<rparr>)) = False
   \<and> trace (snd (snd (checkWatchers example_driver example_store (example_env\<lparr>clock := 40000\<rparr>))))
       = [CheckWatchersCall]"
  using checkWatchers_idle [of "disable example_store" example_env example_driver]
    checkWatchers_idle [of example_store "example_env\<lparr>clock := 40000\<rparr>" example_driver]
  by (simp add: isEnabled_def disable_def list_all_watchers_def example_defs)

text \<open>
  C2 (the code at the failing input). One watcher with \<open>stopOnFound = true\<close> and
  \<open>cooldownMs = 100\<close>, on a driver where the reference is found and the click succeeds:
  the pass marks the watcher inactive and then still waits the 100 ms of the cooldown. The
  two tests \<open>if (watcher.stopOnFound)\<close> and \<open>if (watcher.cooldownMs > 0)\<close> follow each
  other; the second is not the \<open>else\<close> of the first.
\<close>

theorem cooldown_runs_after_stopOnFound:
  "(case checkWatchers example_driver example_once_store example_env of
      (r, s, e) \<Rightarrow>
        r \<and> map (\<lambda>p. (status (snd p), triggerCount (snd p))) (watchers s) = [(Inactive, 1)]
        \<and> trace e = [CheckWatchersCall, FindElementCall ''id'' ''popup'',
                      FindElementCall ''id'' ''close'', CommandCall ''click'' [AStr ''element-1''],
                      Sleep 100]
        \<and> clock e = 300)"
  by (simp add: engine_defs store_defs example_defs Let_def)

section \<open>Inactive and expired watchers in the registry\<close>












lemma add_keeps_distinct:
  "distinct (map fst (watchers store)) \<Longrightarrow> distinct (map fst (watchers (snd (add store spec now))))"
proof -
  have d: "distinct (map fst xs) \<Longrightarrow> distinct (map fst (fold AList.delete ks xs))"
    for ks and xs :: "(string \<times> WatcherState) list"
    by (induction ks arbitrary: xs) (simp_all add: AList.distinct_delete)
  assume "distinct (map fst (watchers store))"
  with d show ?thesis
    by (auto simp: add_def getActiveWatchers_def Let_def AList.distinct_update split: prod.splits)
qed



text \<open>
  C4 (the code at the failing input). \<open>add\<close> tests the name against the raw storage before
  anything is pruned. The registry \<open>example_store\<close> still stores the watcher \<open>brief\<close>, which
  expired at time 103; at time 200 \<open>getActiveWatchers\<close> no longer reports it and only three
  watchers are unexpired, yet adding a watcher of that name fails with the duplicate-name
  error.
\<close>

theorem add_rejects_expired_name:
  "fst (add example_store (example_spec ''brief'') 200) = Inl (DuplicateNameError ''brief'')
   \<and> map expiresAt (filter (\<lambda>w. name w = ''brief'') (list_all_watchers example_store)) = [103]
   \<and> map name (fst (getActiveWatchers example_store 200)) = [''low'', ''first'', ''second'']
   \<and> length (fst (getActiveWatchers example_store 200)) < MAX_WATCHERS"
  by (simp add: store_defs list_all_watchers_def example_defs)

section \<open>Registration\<close>

lemmas validator_defs =
  registerUIWatcher_def validateWatcherParams_def validate_name_def validate_locators_def
  validateLocator_def validate_duration_def validate_optional_def nullish_def trim_def
  is_space_def toLowerCase_def to_lower_char_def VALID_LOCATOR_STRATEGIES_def
  MAX_DURATION_MS_def as_UIWatcher_def as_Locator_def as_opt_int_def as_opt_bool_def
  duration_ok_def example_params_def

lemma validate_duration_bad:
  "\<not> duration_ok (jsget p ''duration'') \<Longrightarrow> validate_duration p \<noteq> None"
  by (cases "jsget p ''duration''") (auto simp: duration_ok_def validate_duration_def)

lemma validateWatcherParams_duration:
  "\<not> duration_ok (jsget p ''duration'') \<Longrightarrow> validateWatcherParams p \<noteq> None"
  using validate_duration_bad [of p]
  by (auto simp: validateWatcherParams_def split: option.splits)

lemma validateLocator_typed: "validateLocator l f = None \<Longrightarrow> as_Locator l \<noteq> None"
  by (cases "jsget l ''using''"; cases "jsget l ''value''")
     (auto simp: validateLocator_def as_Locator_def split: if_splits)

lemma validate_name_typed: "validate_name p = None \<Longrightarrow> \<exists>n. jsget p ''name'' = JStr n"
  by (cases "jsget p ''name''") (auto simp: validate_name_def split: if_splits)

lemma validate_duration_typed: "validate_duration p = None \<Longrightarrow> \<exists>n. jsget p ''duration'' = JNum n"
  by (cases "jsget p ''duration''") (auto simp: validate_duration_def split: if_splits)

lemma validate_optional_typed:
  "validate_optional p = None \<Longrightarrow>
     as_opt_int (jsget p ''priority'') \<noteq> None \<and> as_opt_bool (jsget p ''stopOnFound'') \<noteq> None
     \<and> as_opt_int (jsget p ''cooldownMs'') \<noteq> None"
  by (cases "jsget p ''priority''"; cases "jsget p ''stopOnFound''"; cases "jsget p ''cooldownMs''")
     (auto simp: validate_optional_def as_opt_int_def as_opt_bool_def nullish_def split: if_splits)

lemma validate_locators_typed:
  "validate_locators p = None \<Longrightarrow>
     as_Locator (jsget p ''referenceLocator'') \<noteq> None
     \<and> as_Locator (jsget p ''actionLocator'') \<noteq> None"
  by (auto simp: validate_locators_def split: if_splits option.splits dest: validateLocator_typed)

text \<open>Validated parameters have the static type that \<open>store.add\<close> declares, so the
  \<open>TypeError\<close> branch of \<open>registerUIWatcher\<close> is never taken.\<close>

lemma validated_typed: "validateWatcherParams p = None \<Longrightarrow> as_UIWatcher p \<noteq> None"
proof -
  assume v: "validateWatcherParams p = None"
  then have n: "validate_name p = None" and l: "validate_locators p = None"
    and d: "validate_duration p = None" and o: "validate_optional p = None"
    by (auto simp: validateWatcherParams_def split: if_splits option.splits)
  from validate_name_typed [OF n] validate_duration_typed [OF d]
    validate_locators_typed [OF l] validate_optional_typed [OF o]
  show ?thesis by (auto simp: as_UIWatcher_def)
qed

lemma add_stored:
  "add s watcher now = (Inr w, s') \<Longrightarrow>
     get s' (uw_name watcher) = Some w \<and> name w = uw_name watcher \<and> registeredAt w = now
     \<and> duration w = uw_duration watcher \<and> expiresAt w = now + uw_duration watcher"
  by (auto simp: add_def get_def Let_def AList.update_conv' split: if_splits prod.splits)

text \<open>
  C9. A registration that succeeds has stored, under the reported name, a watcher whose
  \<open>duration\<close> is the number given in the parameters, whose \<open>registeredAt\<close> is the time of
  the call and whose \<open>expiresAt\<close> is \<open>registeredAt + duration\<close>; the reported timestamps
  are the stored ones. When the \<open>duration\<close> parameter is not a number that is strictly
  positive and at most \<open>MAX_DURATION_MS\<close>, the registration fails with a validation error
  and the registry is the one the call started with.
\<close>

theorem registration_expiry:
  "(registerUIWatcher store params now = (Inr r, store') \<longrightarrow>
      (\<exists>w. get store' (rw_name r) = Some w \<and> jsget params ''duration'' = JNum (duration w)
          \<and> registeredAt w = now \<and> expiresAt w = registeredAt w + duration w
          \<and> rw_registeredAt r = registeredAt w \<and> rw_expiresAt r = expiresAt w))
   \<and> (\<not> duration_ok (jsget params ''duration'') \<longrightarrow>
        (\<exists>m. registerUIWatcher store params now = (Inl (ValidationError m), store)))"
proof (intro conjI impI)
  assume ok: "registerUIWatcher store params now = (Inr r, store')"
  then obtain watcher w where
    p: "as_UIWatcher params = Some watcher" and a: "add store watcher now = (Inr w, store')"
    and r: "r = \<lparr>rw_name = name w, rw_priority = priority w, rw_registeredAt = registeredAt w,
                 rw_expiresAt = expiresAt w, rw_status = status w\<rparr>"
    by (auto simp: registerUIWatcher_def split: option.splits sum.splits prod.splits)
  from p have d: "jsget params ''duration'' = JNum (uw_duration watcher)"
    by (auto simp: as_UIWatcher_def split: prod.splits jsval.splits option.splits)
  from add_stored [OF a] r d
  show "\<exists>w. get store' (rw_name r) = Some w \<and> jsget params ''duration'' = JNum (duration w)
          \<and> registeredAt w = now \<and> expiresAt w = registeredAt w + duration w
          \<and> rw_registeredAt r = registeredAt w \<and> rw_expiresAt r = expiresAt w"
    by auto
next
  assume "\<not> duration_ok (jsget params ''duration'')"
  then obtain m where "validateWatcherParams params = Some m"
    using validateWatcherParams_duration by blast
  then show "\<exists>m. registerUIWatcher store params now = (Inl (ValidationError m), store)"
    by (simp add: registerUIWatcher_def)
qed

lemma example_registration:
  "registerUIWatcher new_WatcherStore (example_params 60000) 1000 =
     (Inr \<lparr>rw_name = ''cookie-consent'', rw_priority = 10, rw_registeredAt = 1000,
           rw_expiresAt = 61000, rw_status = Active\<rparr>,
      \<lparr>watchers =
         [(''cookie-consent'',
           \<lparr>name = ''cookie-consent'', priority = 10,
            referenceLocator = \<lparr>loc_using = ''id'', loc_value = ''cookie_banner''\<rparr>,
            actionLocator = \<lparr>loc_using = ''XPath'', loc_value = ''//accept''\<rparr>,
            duration = 60000, stopOnFound = False, cooldownMs = 5000, registeredAt = 1000,
            expiresAt = 61000, status = Active, triggerCount = 0, lastTriggeredAt = None\<rparr>)],
       enabled = True\<rparr>)"
  by (simp add: validator_defs store_defs Let_def)

theorem registration_expiry_witness:
  "(\<exists>w. get (snd (registerUIWatcher new_WatcherStore (example_params 60000) 1000))
            ''cookie-consent'' = Some w
        \<and> registeredAt w = 1000 \<and> expiresAt w = registeredAt w + duration w \<and> duration w = 60000)
   \<and> \<not> duration_ok (jsget (example_params 60001) ''duration'')
   \<and> \<not> duration_ok (jsget (example_params 0) ''duration'')
   \<and> (\<exists>m. registerUIWatcher example_store (example_params 60001) 200
              = (Inl (ValidationError m), example_store))
   \<and> (\<exists>m. registerUIWatcher example_store (example_params 0) 200
              = (Inl (ValidationError m), example_store))"
  using registration_expiry [of new_WatcherStore "example_params 60000" 1000
      "\<lparr>rw_name = ''cookie-consent'', rw_priority = 10, rw_registeredAt = 1000,
        rw_expiresAt = 61000, rw_status = Active\<rparr>"
      "snd (registerUIWatcher new_WatcherStore (example_params 60000) 1000)"]
    registration_expiry [of example_store "example_params 60001" 200]
    registration_expiry [of example_store "example_params 0" 200]
  by (simp add: example_registration get_def)
     (simp add: duration_ok_def example_params_def MAX_DURATION_MS_def)

section \<open>The identifier mapping table\<close>


lemma map_of_addToReverseIndex:
  "map_of (addToReverseIndex r k v) v' =
     (if v' = v then Some (case map_of r v of None \<Rightarrow> [k]
                           | Some S \<Rightarrow> if k \<in> set S then S else S @ [k])
      else map_of r v')"
  by (auto simp: addToReverseIndex_def AList.map_of_map_entry AList.update_conv' split: option.splits)

lemma pointing_to_repoint:
  "pointing_to (repoint new k c) v = (if v = new then insert k (pointing_to c new) else pointing_to c v)"
  by (auto simp: pointing_to_def repoint_def map_of_addToReverseIndex split: option.splits)

lemma getMappedId_repoint:
  "getMappedId (repoint new k c) k' = (if k' = k then Some new else getMappedId c k')"
  by (simp add: getMappedId_def repoint_def AList.update_conv')

lemma getMappedId_fold_repoint:
  "getMappedId (fold (repoint new) S c) k = (if k \<in> set S then Some new else getMappedId c k)"
  by (induction S arbitrary: c) (auto simp: getMappedId_repoint)

lemma pointing_to_fold_repoint:
  "pointing_to (fold (repoint new) S c) v =
     (if v = new then set S \<union> pointing_to c new else pointing_to c v)"
  by (induction S arbitrary: c) (auto simp: pointing_to_repoint)

lemma pointing_to_delete:
  "pointing_to (c\<lparr>reverseIndex := AList.delete old (reverseIndex c)\<rparr>) v =
     (if v = old then {} else pointing_to c v)"
  by (simp add: pointing_to_def AList.delete_conv')

lemma getMappedId_reverseIndex_update [simp]:
  "getMappedId (c\<lparr>reverseIndex := r\<rparr>) k = getMappedId c k"
  by (simp add: getMappedId_def)

lemma getMappedId_setMapping:
  "getMappedId (setMapping c old new) k =
     (if k = old \<or> k \<in> pointing_to c old then Some new else getMappedId c k)"
  by (auto simp: setMapping_def Let_def getMappedId_repoint getMappedId_fold_repoint pointing_to_def
      split: option.splits)

lemma pointing_to_setMapping:
  "new \<noteq> old \<Longrightarrow> pointing_to (setMapping c old new) v =
     (if v = new then insert old (pointing_to c old \<union> pointing_to c new)
      else if v = old then {} else pointing_to c v)"
  apply (cases "map_of (reverseIndex c) old")
   apply (auto simp: setMapping_def Let_def pointing_to_repoint pointing_to_fold_repoint pointing_to_delete)
     apply (auto simp: pointing_to_def)
  done

lemma old_pointing_to_new: "old \<in> pointing_to (setMapping c old new) new"
  by (cases "map_of (reverseIndex c) old")
     (auto simp: setMapping_def Let_def pointing_to_repoint)

lemma setMapping_preserves:
  assumes sh: "single_hop c" and ro: "reverse_ok c"
    and ne: "new \<noteq> old" and fr: "getMappedId c new = None"
  shows "single_hop (setMapping c old new) \<and> reverse_ok (setMapping c old new)"
proof
  have new_not_src: "new \<notin> pointing_to c old"
    using ro fr by (auto simp: reverse_ok_def)
  show "single_hop (setMapping c old new)"
    unfolding single_hop_def
  proof (intro allI impI)
    fix k v
    assume kv: "getMappedId (setMapping c old new) k = Some v"
    show "getMappedId (setMapping c old new) v = None"
    proof (cases "k = old \<or> k \<in> pointing_to c old")
      case True
      with kv have "v = new" by (simp add: getMappedId_setMapping)
      with ne fr new_not_src show ?thesis by (simp add: getMappedId_setMapping)
    next
      case False
      with kv have old_kv: "getMappedId c k = Some v" by (simp add: getMappedId_setMapping)
      with sh have vnone: "getMappedId c v = None" by (simp add: single_hop_def)
      from old_kv ro False have "v \<noteq> old" by (auto simp: reverse_ok_def)
      moreover from vnone ro have "v \<notin> pointing_to c old" by (auto simp: reverse_ok_def)
      ultimately show ?thesis using vnone by (simp add: getMappedId_setMapping)
    qed
  qed
  show "reverse_ok (setMapping c old new)"
    unfolding reverse_ok_def
  proof (intro conjI allI impI)
    fix k v
    assume kv: "getMappedId (setMapping c old new) k = Some v"
    show "k \<in> pointing_to (setMapping c old new) v"
    proof (cases "k = old \<or> k \<in> pointing_to c old")
      case True
      with kv have "v = new" by (simp add: getMappedId_setMapping)
      with True ne show ?thesis by (auto simp: pointing_to_setMapping)
    next
      case False
      with kv have old_kv: "getMappedId c k = Some v" by (simp add: getMappedId_setMapping)
      with ro have "k \<in> pointing_to c v" by (simp add: reverse_ok_def)
      moreover from this False have "v \<noteq> old" by auto
      ultimately show ?thesis using ne by (auto simp: pointing_to_setMapping)
    qed
  next
    fix k v
    assume "k \<in> pointing_to (setMapping c old new) v"
    with ne have "k = old \<or> k \<in> pointing_to c old \<or> (\<exists>v'. k \<in> pointing_to c v')"
      by (auto simp: pointing_to_setMapping split: if_splits)
    with ro show "getMappedId (setMapping c old new) k \<noteq> None"
      by (auto simp: getMappedId_setMapping reverse_ok_def)
  qed
qed

lemma setMappings_preserves:
  "single_hop c \<Longrightarrow> reverse_ok c \<Longrightarrow> fresh_targets c ps \<Longrightarrow>
     single_hop (setMappings c ps) \<and> reverse_ok (setMappings c ps)"
proof (induction ps arbitrary: c)
  case Nil
  then show ?case by simp
next
  case (Cons p ps)
  obtain old new where p: "p = (old, new)" by (cases p)
  from Cons.prems p have ne: "new \<noteq> old" and fr: "getMappedId c new = None"
    and rest: "fresh_targets (setMapping c old new) ps" by simp_all
  from setMapping_preserves [OF Cons.prems(1,2) ne fr] rest Cons.IH p
  show ?case by simp
qed

lemma new_cache_ok:
  "single_hop (new_ElementReferenceCache cfg) \<and> reverse_ok (new_ElementReferenceCache cfg)"
  by (simp add: single_hop_def reverse_ok_def getMappedId_def pointing_to_def
      new_ElementReferenceCache_def)

lemma collapse:
  "getMappedId (setMapping (setMapping c a b) b x) a = Some x \<and>
   getMappedId (setMapping (setMapping c a b) b x) b = Some x"
  using old_pointing_to_new [of a c b] by (simp add: getMappedId_setMapping)

text \<open>
  C5 (as amended). Take any sequence of \<open>setMapping\<close> calls on a new cache in which every
  new identifier differs from its old identifier and has no mapping of its own when the call
  is made. After the sequence the table is single-hop: no identifier that some identifier
  resolves to has a mapping of its own. And on any cache, after \<open>setMapping a b\<close> followed
  by \<open>setMapping b x\<close>, both \<open>a\<close> and \<open>b\<close> resolve to \<open>x\<close>.
\<close>

theorem setMappings_single_hop:
  "(fresh_targets (new_ElementReferenceCache cfg) ps \<longrightarrow>
      single_hop (setMappings (new_ElementReferenceCache cfg) ps))
   \<and> getMappedId (setMappings c [(a, b), (b, x)]) a = Some x
   \<and> getMappedId (setMappings c [(a, b), (b, x)]) b = Some x"
  using setMappings_preserves [of "new_ElementReferenceCache cfg" ps] new_cache_ok [of cfg]
    collapse [of c a b x]
  by simp


lemmas mapping_defs = setMapping_def repoint_def addToReverseIndex_def getMappedId_def
  new_ElementReferenceCache_def example_cache_def

text \<open>
  C5 as stated fails: \<open>setMapping\<close> rewrites the mappings that point at the old
  identifier, and does nothing about a new identifier that is already mapped. After
  \<open>setMapping a b\<close> and \<open>setMapping c a\<close> the table maps \<open>c\<close> to \<open>a\<close> and \<open>a\<close> to \<open>b\<close>.
\<close>

theorem setMappings_not_single_hop:
  "\<not> single_hop (setMappings example_cache [(''a'', ''b''), (''c'', ''a'')])"
proof
  assume "single_hop (setMappings example_cache [(''a'', ''b''), (''c'', ''a'')])"
  then have "getMappedId (setMappings example_cache [(''a'', ''b''), (''c'', ''a'')]) ''c'' = Some ''a''
    \<longrightarrow> getMappedId (setMappings example_cache [(''a'', ''b''), (''c'', ''a'')]) ''a'' = None"
    unfolding single_hop_def by blast
  then show False by (simp add: mapping_defs)
qed

theorem setMappings_single_hop_witness:
  "fresh_targets example_cache [(''a'', ''b''), (''b'', ''c''), (''d'', ''c'')]
   \<and> single_hop (setMappings example_cache [(''a'', ''b''), (''b'', ''c''), (''d'', ''c'')])
   \<and> getMappedId (setMappings example_cache [(''a'', ''b''), (''b'', ''c'')]) ''a'' = Some ''c''
   \<and> getMappedId (setMappings example_cache [(''a'', ''b''), (''b'', ''c'')]) ''b'' = Some ''c''"
  using setMappings_single_hop [of "cache_config DefaultPluginConfig"
      "[(''a'', ''b''), (''b'', ''c''), (''d'', ''c'')]" example_cache "''a''" "''b''" "''c''"]
  by (simp add: mapping_defs)

section \<open>The element cache: recency order and eviction\<close>


lemma evict_while_stop:
  "\<not> int (length (cache c)) \<ge> maxCacheEntries (config c) \<Longrightarrow> evict_while c = Some c"
  by (subst evict_while.simps) simp

lemma evict_while_step:
  "int (length (cache c)) \<ge> maxCacheEntries (config c) \<Longrightarrow> evict_while c = evict_while (evictLRU c)"
  by (subst evict_while.simps) simp

lemma length_delete_key:
  "distinct (map fst al) \<Longrightarrow> k \<in> fst ` set al \<Longrightarrow> Suc (length (AList.delete k al)) = length al"
proof (induction al)
  case Nil
  then show ?case by simp
next
  case (Cons p al)
  then show ?case by (cases p) (auto simp: image_iff)
qed

lemma keys_delete: "fst ` set (AList.delete k al) = fst ` set al - {k}"
  by (auto simp: AList.delete_eq image_iff)

lemma cache_inv_nonempty:
  "cache_inv c \<Longrightarrow> cache c \<noteq> [] \<Longrightarrow> \<exists>lruId rest. accessOrder c = lruId # rest \<and> lruId \<noteq> []"
  by (cases "accessOrder c") (auto simp: cache_inv_def)

lemma evictLRU_head:
  assumes "cache_inv c" and "accessOrder c = lruId # rest"
  shows "evictLRU c = c\<lparr>cache := AList.delete lruId (cache c), accessOrder := rest\<rparr>
       \<and> cache_inv (evictLRU c) \<and> Suc (length (cache (evictLRU c))) = length (cache c)"
proof -
  from assms have ne: "lruId \<noteq> []" and mem: "lruId \<in> fst ` set (cache c)"
    and d: "distinct (map fst (cache c))" and notin: "lruId \<notin> set rest" and dr: "distinct rest"
    and eq: "insert lruId (set rest) = fst ` set (cache c)" and e: "[] \<notin> set rest"
    by (auto simp: cache_inv_def)
  from ne assms(2) have ev: "evictLRU c = c\<lparr>cache := AList.delete lruId (cache c), accessOrder := rest\<rparr>"
    by (simp add: evictLRU_def)
  have "set rest = fst ` set (AList.delete lruId (cache c))"
    using eq notin by (auto simp: keys_delete)
  with d dr e have "cache_inv (evictLRU c)"
    by (simp add: ev cache_inv_def AList.distinct_delete)
  moreover have "Suc (length (cache (evictLRU c))) = length (cache c)"
    using length_delete_key [OF d mem] by (simp add: ev)
  ultimately show ?thesis using ev by simp
qed

lemma evict_while_total:
  "cache_inv c \<Longrightarrow> 1 \<le> maxCacheEntries (config c) \<Longrightarrow>
     \<exists>c'. evict_while c = Some c' \<and> cache_inv c' \<and> config c' = config c
          \<and> idMappings c' = idMappings c \<and> reverseIndex c' = reverseIndex c
          \<and> int (length (cache c')) < maxCacheEntries (config c)"
proof (induction "length (cache c)" arbitrary: c)
  case 0
  then show ?case by (simp add: evict_while_stop)
next
  case (Suc n)
  show ?case
  proof (cases "int (length (cache c)) \<ge> maxCacheEntries (config c)")
    case False
    with Suc.prems show ?thesis by (simp add: evict_while_stop)
  next
    case True
    from Suc.hyps(2) have "cache c \<noteq> []" by auto
    with Suc.prems(1) obtain lruId rest where o: "accessOrder c = lruId # rest"
      using cache_inv_nonempty by blast
    from evictLRU_head [OF Suc.prems(1) o] Suc.hyps(2)
    have ev: "evictLRU c = c\<lparr>cache := AList.delete lruId (cache c), accessOrder := rest\<rparr>"
      and inv: "cache_inv (evictLRU c)" and len: "n = length (cache (evictLRU c))"
      by auto
    have cfg: "config (evictLRU c) = config c" by (simp add: ev)
    from Suc.hyps(1) [OF len inv] Suc.prems(2) cfg
    obtain c' where "evict_while (evictLRU c) = Some c'" "cache_inv c'" "config c' = config c"
      "idMappings c' = idMappings (evictLRU c)" "reverseIndex c' = reverseIndex (evictLRU c)"
      "int (length (cache c')) < maxCacheEntries (config c)"
      by auto
    with True show ?thesis by (simp add: evict_while_step ev)
  qed
qed

lemma keys_update: "fst ` set (AList.update k v al) = insert k (fst ` set al)"
  by (simp add: AList.dom_update)

lemma cache_inv_insert:
  assumes "cache_inv c" and "elementId \<noteq> []"
  shows "cache_inv (updateAccessOrder (c\<lparr>cache := AList.update elementId ref (cache c)\<rparr>) elementId)"
  using assms
  by (auto simp: cache_inv_def updateAccessOrder_def AList.distinct_update keys_update)

lemma addToCache_total:
  assumes "cache_inv c" and "1 \<le> maxCacheEntries (config c)" and "elementId \<noteq> []"
  shows "\<exists>c'. addToCache c elementId ref = Some c' \<and> cache_inv c' \<and> config c' = config c"
proof -
  from evict_while_total [OF assms(1,2)] obtain c1 where
    "evict_while c = Some c1" "cache_inv c1" "config c1 = config c" by auto
  with cache_inv_insert [OF this(2) assms(3), of ref] show ?thesis
    by (simp add: addToCache_def updateAccessOrder_def)
qed

lemma cache_inv_new: "cache_inv (new_ElementReferenceCache cfg)"
  by (simp add: cache_inv_def new_ElementReferenceCache_def)

lemma cache_inv_touch:
  assumes "cache_inv c" and "map_of (cache c) k \<noteq> None"
  shows "cache_inv (updateAccessOrder c k)"
proof -
  from assms(2) obtain y where "(k, y) \<in> set (cache c)" by (auto dest: map_of_SomeD)
  then have "k \<in> fst ` set (cache c)" by force
  with assms(1) show ?thesis
    by (auto simp: cache_inv_def updateAccessOrder_def)
qed

lemma cache_inv_remove: "cache_inv c \<Longrightarrow> cache_inv (removeFromCache c k)"
  by (auto simp: cache_inv_def removeFromCache_def AList.distinct_delete keys_delete)

lemma cache_inv_getRef: "cache_inv c \<Longrightarrow> cache_inv (snd (getRef c k now))"
  by (auto simp: getRef_def cache_inv_touch cache_inv_remove split: option.splits)


lemmas cache_defs =
  addToCache_def cacheElement_def updateAccessOrder_def evictLRU_def getRef_def isExpired_def
  removeFromCache_def new_ElementReferenceCache_def example_lru_cache_def

lemma example_lru_cache_reachable:
  "Option.bind (cacheElement (new_ElementReferenceCache \<lparr>maxCacheEntries = 3, elementTtlMs = 60000\<rparr>)
                  ''elem-1'' ''id'' ''btn1'' 1000)
     (\<lambda>c1. Option.bind (cacheElement c1 ''elem-2'' ''id'' ''btn2'' 1001)
        (\<lambda>c2. cacheElement c2 ''elem-3'' ''id'' ''btn3'' 1002))
   = Some example_lru_cache"
  by (simp add: cache_defs evict_while_stop)






section \<open>The interception of lookups and element actions\<close>


lemma pass_events_append: "pass_events (xs @ ys) \<longleftrightarrow> pass_events xs \<and> pass_events ys"
  by (simp add: pass_events_def)

lemma check_watcher_trace:
  "\<exists>evs. trace (snd (snd (check_watcher d w (b, s, e)))) = trace e @ evs \<and> pass_events evs"
  by (auto simp: check_watcher_def call_findElement_def call_command_def sleep_def Let_def
      pass_events_def is_driver_call_def is_sleep_def
      split: prod.splits sum.splits option.splits)

lemma fold_check_watcher_trace:
  "\<exists>evs. trace (snd (snd (fold (check_watcher d) ws (b, s, e)))) = trace e @ evs \<and> pass_events evs"
proof (induction ws arbitrary: b s e)
  case Nil
  show ?case by (simp add: pass_events_def)
next
  case (Cons w ws)
  obtain b1 s1 e1 where step: "check_watcher d w (b, s, e) = (b1, s1, e1)"
    by (cases "check_watcher d w (b, s, e)") auto
  from check_watcher_trace [of d w b s e] step
  obtain evs1 where t1: "trace e1 = trace e @ evs1" and p1: "pass_events evs1" by auto
  from Cons.IH [of b1 s1 e1]
  obtain evs2 where t2: "trace (snd (snd (fold (check_watcher d) ws (b1, s1, e1)))) = trace e1 @ evs2"
    and p2: "pass_events evs2" by auto
  from t1 t2 p1 p2 step show ?case
    by (auto simp: pass_events_append intro!: exI [of _ "evs1 @ evs2"])
qed

lemma checkWatchers_trace:
  "\<exists>evs. trace (snd (snd (checkWatchers d s e))) = trace e @ [CheckWatchersCall] @ evs
         \<and> pass_events evs"
proof -
  let ?e = "e\<lparr>trace := trace e @ [CheckWatchersCall]\<rparr>"
  have nil: "pass_events []" by (simp add: pass_events_def)
  obtain ws s1 where g: "getSortedWatchers s (clock e) = (ws, s1)"
    by (cases "getSortedWatchers s (clock e)") auto
  from fold_check_watcher_trace [of d ws False s1 ?e]
  obtain evs where "trace (snd (snd (fold (check_watcher d) ws (False, s1, ?e)))) = trace ?e @ evs"
    and "pass_events evs" by auto
  with g nil show ?thesis
    by (auto simp: checkWatchers_def Let_def)
qed


lemma extractElementId_nonempty: "extractElementId el = Some i \<Longrightarrow> i \<noteq> []"
  by (cases el) (auto split: option.splits if_splits)

lemma getStore_session:
  "getStore P d = Inr (sid, store, P1) \<Longrightarrow>
     sessionId d = Some sid \<and> sid \<noteq> [] \<and> caches P1 = caches P \<and> pconfig P1 = pconfig P"
  by (auto simp: getStore_def split: option.splits if_splits)

lemma getCache_ok:
  assumes "plugin_ok P" and "sessionId d = Some sid" and "sid \<noteq> []"
  shows "\<exists>c P1. getCache P d = Inr (sid, c, P1) \<and> cache_inv c \<and> 1 \<le> maxCacheEntries (config c)
           \<and> stores P1 = stores P"
proof (cases "map_of (caches P) sid")
  case None
  with assms show ?thesis
    by (simp add: getCache_def plugin_ok_def cache_inv_def new_ElementReferenceCache_def
        cache_config_def Let_def)
next
  case (Some c)
  with assms show ?thesis by (auto simp: getCache_def plugin_ok_def)
qed

lemma cacheFound_total:
  assumes "plugin_ok P" and "sessionId d = Some sid" and "sid \<noteq> []"
  shows "\<exists>P2. cacheFound P d result u v now = Some (Inr P2)"
proof (cases "el_truthy result \<and> u \<noteq> [] \<and> v \<noteq> []")
  case False
  then show ?thesis by (auto simp: cacheFound_def)
next
  case True
  show ?thesis
  proof (cases "extractElementId result")
    case None
    with True show ?thesis by (simp add: cacheFound_def)
  next
    case (Some elementId)
    then have ne: "elementId \<noteq> []" by (rule extractElementId_nonempty)
    from getCache_ok [OF assms] obtain c P1 where
      g: "getCache P d = Inr (sid, c, P1)" and inv: "cache_inv c"
      and pos: "1 \<le> maxCacheEntries (config c)" by auto
    from addToCache_total [OF inv pos ne, of "CachedElementRef u v now"]
    obtain c1 where "cacheElement c elementId u v now = Some c1"
      by (auto simp: cacheElement_def)
    with True Some g show ?thesis by (simp add: cacheFound_def)
  qed
qed

lemma plugin_ok_new:
  "1 \<le> cfg_maxCacheEntries cfg \<Longrightarrow> plugin_ok (new_UIWatchersPlugin cfg)"
  by (simp add: plugin_ok_def new_UIWatchersPlugin_def)

lemma cache_inv_cleanup_fold:
  "cache_inv c \<Longrightarrow> cache_inv (fold (\<lambda>elementId c1. removeFromCache c1 elementId) ks c)"
  by (induction ks arbitrary: c) (simp_all add: cache_inv_remove)

lemma cache_inv_cleanup: "cache_inv c \<Longrightarrow> cache_inv (cleanup c now)"
  by (simp add: cleanup_def Let_def cache_inv_cleanup_fold)

lemma plugin_ok_put_cache:
  "plugin_ok P \<Longrightarrow> cache_inv c \<Longrightarrow> 1 \<le> maxCacheEntries (config c) \<Longrightarrow> plugin_ok (put_cache P sid c)"
  by (auto simp: plugin_ok_def put_cache_def AList.update_conv')

lemma getCache_result:
  assumes ok: "plugin_ok P" and g: "getCache P d = Inr (sid, c, P1)"
  shows "cache_inv c \<and> 1 \<le> maxCacheEntries (config c) \<and> plugin_ok P1"
proof (cases "map_of (caches P) sid")
  case None
  with g have c: "c = new_ElementReferenceCache (cache_config (pconfig P))"
    and p: "P1 = put_cache P sid c"
    by (auto simp: getCache_def Let_def put_cache_def split: option.splits if_splits)
  from c have "cache_inv c" by (simp add: cache_inv_new)
  moreover from c ok have "1 \<le> maxCacheEntries (config c)"
    by (simp add: plugin_ok_def new_ElementReferenceCache_def cache_config_def)
  ultimately have "cache_inv c" "1 \<le> maxCacheEntries (config c)" by simp_all
  with ok p show ?thesis by (simp add: plugin_ok_put_cache)
next
  case (Some c0)
  with g have "c = c0" "P1 = P"
    by (auto simp: getCache_def Let_def split: option.splits if_splits)
  with ok Some show ?thesis by (simp add: plugin_ok_def)
qed

lemma cacheFound_preserves:
  assumes "plugin_ok P" and "cacheFound P d result u v now = Some (Inr P2)"
  shows "plugin_ok P2"
proof (cases "el_truthy result \<and> u \<noteq> [] \<and> v \<noteq> []")
  case False
  with assms show ?thesis by (auto simp: cacheFound_def)
next
  case True
  show ?thesis
  proof (cases "extractElementId result")
    case None
    with True assms show ?thesis by (simp add: cacheFound_def)
  next
    case (Some elementId)
    then have ne: "elementId \<noteq> []" by (rule extractElementId_nonempty)
    from True Some assms(2) obtain sid c P1 c1 where
      g: "getCache P d = Inr (sid, c, P1)" and a: "cacheElement c elementId u v now = Some c1"
      and p: "P2 = put_cache P1 sid c1"
      by (auto simp: cacheFound_def split: sum.splits option.splits)
    from getCache_result [OF assms(1) g] have inv: "cache_inv c"
      and pos: "1 \<le> maxCacheEntries (config c)" and ok1: "plugin_ok P1" by auto
    from addToCache_total [OF inv pos ne, of "CachedElementRef u v now"] a
    have "cache_inv c1" "config c1 = config c" by (auto simp: cacheElement_def)
    with pos ok1 p show ?thesis by (simp add: plugin_ok_put_cache)
  qed
qed

text \<open>
  The \<open>catch\<close> site of the single-element lookup. When the first call of \<open>next\<close> throws an
  error classified as not-found or stale-reference, \<open>findElement\<close> returns, and its trace
  is: the failed call, one invocation of \<open>checkWatchers\<close> with the driver calls and waits of
  that pass, and one more call of \<open>next\<close>. The boolean that \<open>checkWatchers\<close> returned occurs
  nowhere in the result. A retry that succeeds is returned and cached by \<open>cacheFound\<close>; a
  retry that throws gives the original error.
\<close>

lemma findElement_always_retries:
  assumes ok: "plugin_ok P"
    and sess: "getStore P d = Inr (sid, store, P1)"
    and fail: "nxt (world e) = (Inl je, w1)"
    and cls: "shouldCheckWatchers (DriverError je)"
  shows "\<exists>out P2 e3 evs.
           findElement nxt d u v P e = Some (out, P2, e3)
         \<and> plugin_ok P2
         \<and> trace e3 = trace e @ [NextCall, CheckWatchersCall] @ evs @ [NextCall]
         \<and> pass_events evs
         \<and> (let r = checkWatchers d store (e\<lparr>world := w1, trace := trace e @ [NextCall]\<rparr>);
                store1 = fst (snd r); e2 = snd (snd r)
            in world e3 = snd (nxt (world e2))
               \<and> (case fst (nxt (world e2)) of
                     Inl je2 \<Rightarrow> out = Inl (DriverError je) \<and> P2 = put_store P1 sid store1
                   | Inr el \<Rightarrow> out = Inr el
                       \<and> cacheFound (put_store P1 sid store1) d el u v (clock e2) = Some (Inr P2)))"
proof -
  let ?e1 = "e\<lparr>world := w1, trace := trace e @ [NextCall]\<rparr>"
  obtain b store1 e2 where cw: "checkWatchers d store ?e1 = (b, store1, e2)"
    by (cases "checkWatchers d store ?e1") auto
  from checkWatchers_trace [of d store ?e1] cw
  obtain evs where tr: "trace e2 = trace e @ [NextCall, CheckWatchersCall] @ evs"
    and pe: "pass_events evs" by auto
  let ?P2 = "put_store P1 sid store1"
  from getStore_session [OF sess] have sid: "sessionId d = Some sid" "sid \<noteq> []"
    and same: "caches P1 = caches P" "pconfig P1 = pconfig P" by auto
  have ok2: "plugin_ok ?P2"
    using ok same by (simp add: plugin_ok_def put_store_def)
  obtain r2 w3 where n2: "nxt (world e2) = (r2, w3)" by (cases "nxt (world e2)") auto
  let ?e3 = "e2\<lparr>world := w3, trace := trace e2 @ [NextCall]\<rparr>"
  have first: "call_next nxt e = (Inl je, ?e1)" using fail by (simp add: call_next_def)
  have second: "call_next nxt e2 = (r2, ?e3)" using n2 by (simp add: call_next_def)
  show ?thesis
  proof (cases r2)
    case (Inl je2)
    with first second cls sess cw
    have "findElement nxt d u v P e = Some (Inl (DriverError je), ?P2, ?e3)"
      by (simp add: findElement_def findElement_catch_def)
    with tr pe cw n2 Inl ok2 show ?thesis by simp
  next
    case (Inr el)
    from cacheFound_total [OF ok2 sid, of el u v "clock e2"]
    obtain P3 where cf: "cacheFound ?P2 d el u v (clock e2) = Some (Inr P3)" by auto
    from cacheFound_preserves [OF ok2 cf] have ok3: "plugin_ok P3" .
    from cf first second cls sess cw Inr
    have "findElement nxt d u v P e = Some (Inr el, P3, ?e3)"
      by (simp add: findElement_def findElement_catch_def)
    with tr pe cw n2 Inr ok3 cf show ?thesis by simp
  qed
qed

lemmas plugin_defs =
  findElement_def findElement_catch_def call_next_def getStore_def getCache_def put_store_def
  put_cache_def cacheFound_def el_truthy_def shouldCheckWatchers_def error_fields.simps
  errorName_def message_includes_def new_UIWatchersPlugin_def DefaultPluginConfig_def
  cache_config_def example_plugin_def example_lookup_next_def example_not_found_def

lemmas plugin_example_defs =
  example_watched_plugin_def example_mapped_plugin_def example_stale_def example_stale_next_def
  example_cache_def example_cached_cache_def
  example_cached_plugin_def example_recovered_cache_def example_recovered_plugin_def

text \<open>
  C1 (the code at the failing input). A session with no watcher registered, and a
  single-element lookup whose first call of \<open>next\<close> throws \<open>NoSuchElementError\<close>. The pass of
  \<open>checkWatchers\<close> returns false. \<open>findElement\<close> does not read that value: it calls \<open>next\<close>
  a second time, and as this call finds the element, the element is returned and its
  locator cached; the original failure is not surfaced. The same with a registered watcher
  that fires. The handler of element actions, in the same class, reads the value and
  rethrows the original error when it is false.
\<close>

theorem findElement_retries_after_false:
  "fst (example_lookup_next (world example_env)) = Inl example_not_found
   \<and> shouldCheckWatchers (DriverError example_not_found)
   \<and> fst (checkWatchers example_driver new_WatcherStore
            (example_env\<lparr>world := [[AStr ''id'', AStr ''login'']], trace := [NextCall]\<rparr>)) = False
   \<and> (\<exists>P2 e3. findElement example_lookup_next example_driver ''id'' ''login'' example_plugin example_env
                 = Some (Inr (ElObject (Some ''element-7'') None), P2, e3)
             \<and> trace e3 = [NextCall, CheckWatchersCall, NextCall]
             \<and> world e3 = [[AStr ''id'', AStr ''login''], [AStr ''id'', AStr ''login'']]
             \<and> map (\<lambda>p. (fst p, cache (snd p))) (caches P2)
                 = [(''session-1'', [(''element-7'', CachedElementRef ''id'' ''login'' 200)])])
   \<and> (\<exists>P2 e3. findElement example_lookup_next example_driver ''id'' ''login''
                  example_watched_plugin example_env
                 = Some (Inr (ElObject (Some ''element-7'') None), P2, e3)
             \<and> trace e3 = [NextCall, CheckWatchersCall, FindElementCall ''id'' ''popup'',
                            FindElementCall ''id'' ''close'',
                            CommandCall ''click'' [AStr ''element-1''], Sleep 100, NextCall])
   \<and> fst (interceptAction example_stale_next example_driver ''a'' ''click'' [AStr ''a'']
            example_plugin example_env) = Inl (DriverError example_stale)"
  by (simp add: plugin_defs plugin_example_defs engine_defs store_defs cache_defs example_defs
      evict_while_stop Let_def interceptAction_def isStaleElementException_def)

lemma cacheElements_from_total:
  "cache_inv c \<Longrightarrow> 1 \<le> maxCacheEntries (config c) \<Longrightarrow>
     \<exists>c1. cacheElements_from i els u v now c = Some c1 \<and> cache_inv c1 \<and> config c1 = config c"
proof (induction els arbitrary: i c)
  case Nil
  then show ?case by simp
next
  case (Cons el els)
  show ?case
  proof (cases "extractElementId el")
    case None
    with Cons show ?thesis by simp
  next
    case (Some elementId)
    then have ne: "elementId \<noteq> []" by (rule extractElementId_nonempty)
    from addToCache_total [OF Cons.prems ne, of "CachedElementsRef u v i now"]
    obtain c1 where a: "addToCache c elementId (CachedElementsRef u v i now) = Some c1"
      and inv1: "cache_inv c1" and cfg1: "config c1 = config c" by auto
    from Cons.IH [OF inv1, of "i + 1"] Cons.prems(2) cfg1
    obtain c2 where "cacheElements_from (i + 1) els u v now c1 = Some c2" "cache_inv c2"
      "config c2 = config c" by auto
    with Some a show ?thesis by simp
  qed
qed

lemma cacheFoundMany_total:
  assumes ok: "plugin_ok P" and sid: "sessionId d = Some sid" "sid \<noteq> []"
  shows "\<exists>P2. cacheFoundMany P d result u v now = Some (Inr P2) \<and> plugin_ok P2"
proof (cases result)
  case (FoundOther x)
  with ok show ?thesis by (simp add: cacheFoundMany_def)
next
  case (FoundArray els)
  show ?thesis
  proof (cases "length els > 0 \<and> u \<noteq> [] \<and> v \<noteq> []")
    case False
    with FoundArray ok show ?thesis by (auto simp: cacheFoundMany_def)
  next
    case True
    from getCache_ok [OF ok sid] obtain c P1 where g: "getCache P d = Inr (sid, c, P1)" by auto
    from getCache_result [OF ok g] have inv: "cache_inv c"
      and pos: "1 \<le> maxCacheEntries (config c)" and ok1: "plugin_ok P1" by auto
    from cacheElements_from_total [OF inv pos, of 0 els u v now]
    obtain c1 where "cacheElements c els u v now = Some c1" "cache_inv c1" "config c1 = config c"
      by (auto simp: cacheElements_def)
    with True FoundArray g pos ok1 show ?thesis
      by (simp add: cacheFoundMany_def plugin_ok_put_cache)
  qed
qed

text \<open>The multi-element lookup does the same at its \<open>catch\<close> site, for every error.\<close>

lemma findElements_retries_once:
  assumes ok: "plugin_ok P"
    and sess: "getStore P d = Inr (sid, store, P1)"
    and fail: "nxt (world e) = (Inl je, w1)"
  shows "\<exists>out P2 e3 evs.
           findElements nxt d u v P e = Some (out, P2, e3)
         \<and> plugin_ok P2
         \<and> trace e3 = trace e @ [NextCall, CheckWatchersCall] @ evs @ [NextCall]
         \<and> pass_events evs
         \<and> (let r = checkWatchers d store (e\<lparr>world := w1, trace := trace e @ [NextCall]\<rparr>);
                store1 = fst (snd r); e2 = snd (snd r)
            in world e3 = snd (nxt (world e2))
               \<and> (case fst (nxt (world e2)) of
                     Inl je2 \<Rightarrow> out = Inl (DriverError je) \<and> P2 = put_store P1 sid store1
                   | Inr found \<Rightarrow> out = Inr found
                       \<and> cacheFoundMany (put_store P1 sid store1) d found u v (clock e2)
                           = Some (Inr P2)))"
proof -
  let ?e1 = "e\<lparr>world := w1, trace := trace e @ [NextCall]\<rparr>"
  obtain b store1 e2 where cw: "checkWatchers d store ?e1 = (b, store1, e2)"
    by (cases "checkWatchers d store ?e1") auto
  from checkWatchers_trace [of d store ?e1] cw
  obtain evs where tr: "trace e2 = trace e @ [NextCall, CheckWatchersCall] @ evs"
    and pe: "pass_events evs" by auto
  let ?P2 = "put_store P1 sid store1"
  from getStore_session [OF sess] have sid: "sessionId d = Some sid" "sid \<noteq> []"
    and same: "caches P1 = caches P" "pconfig P1 = pconfig P" by auto
  have ok2: "plugin_ok ?P2"
    using ok same by (simp add: plugin_ok_def put_store_def)
  obtain r2 w3 where n2: "nxt (world e2) = (r2, w3)" by (cases "nxt (world e2)") auto
  let ?e3 = "e2\<lparr>world := w3, trace := trace e2 @ [NextCall]\<rparr>"
  have first: "call_next nxt e = (Inl je, ?e1)" using fail by (simp add: call_next_def)
  have second: "call_next nxt e2 = (r2, ?e3)" using n2 by (simp add: call_next_def)
  show ?thesis
  proof (cases r2)
    case (Inl je2)
    with first second sess cw
    have "findElements nxt d u v P e = Some (Inl (DriverError je), ?P2, ?e3)"
      by (simp add: findElements_def findElements_retry_def)
    with tr pe cw n2 Inl ok2 show ?thesis by simp
  next
    case (Inr found)
    from cacheFoundMany_total [OF ok2 sid, of found u v "clock e2"]
    obtain P3 where cf: "cacheFoundMany ?P2 d found u v (clock e2) = Some (Inr P3)"
      and ok3: "plugin_ok P3" by auto
    from cf first second sess cw Inr
    have "findElements nxt d u v P e = Some (Inr found, P3, ?e3)"
      by (simp add: findElements_def findElements_retry_def)
    with tr pe cw n2 Inr ok3 cf show ?thesis by simp
  qed
qed

text \<open>
  The handler of element actions. The action is invoked through the host continuation
  \<open>next\<close>, which takes no argument: when \<open>next\<close> succeeds its result is returned and the
  trace gains that one call. The identifier resolved through the mapping table is the key
  of the cache lookup in the recovery. After a stale-reference error and a pass in which a
  watcher fired, a cache without an unexpired entry under the resolved identifier gives the
  recovery-impossible error with no further driver call; with an entry from a
  single-element lookup, whose locator finds an element again, the table maps the
  identifier of the request to the new one and the command is called on the driver with the
  new identifier in place of the first argument.
\<close>

lemma interceptAction_recovery:
  assumes gc: "getCache P d = Inr (sid, c, P1)"
  shows "(\<forall>r w1. nxt (world e) = (Inr r, w1) \<longrightarrow>
             interceptAction nxt d elementId cmdName args P e
               = (Inr r, P1, e\<lparr>world := w1, trace := trace e @ [NextCall]\<rparr>))
       \<and> (\<forall>je w1 ssid store P2 store1 e2.
             nxt (world e) = (Inl je, w1) \<and> isStaleElementException (DriverError je)
             \<and> getStore P1 d = Inr (ssid, store, P2)
             \<and> checkWatchers d store (e\<lparr>world := w1, trace := trace e @ [NextCall]\<rparr>)
                 = (True, store1, e2)
             \<and> fst (getRef c (resolveId c elementId) (clock e2)) = None \<longrightarrow>
             fst (interceptAction nxt d elementId cmdName args P e) = Inl CacheMissError
             \<and> trace (snd (snd (interceptAction nxt d elementId cmdName args P e))) = trace e2)
       \<and> (\<forall>je w1 ssid store P2 store1 e2 u v t c1 newElement w3 newId r w4.
             nxt (world e) = (Inl je, w1) \<and> isStaleElementException (DriverError je)
             \<and> getStore P1 d = Inr (ssid, store, P2)
             \<and> checkWatchers d store (e\<lparr>world := w1, trace := trace e @ [NextCall]\<rparr>)
                 = (True, store1, e2)
             \<and> getRef c (resolveId c elementId) (clock e2) = (Some (CachedElementRef u v t), c1)
             \<and> drv_findElement d u v (world e2) = (Inr newElement, w3)
             \<and> extractElementId newElement = Some newId
             \<and> drv_command d cmdName (AStr newId # tl args) w3 = (Inr r, w4) \<longrightarrow>
             interceptAction nxt d elementId cmdName args P e
               = (Inr r, put_cache (put_store P2 ssid store1) sid (setMapping c1 elementId newId),
                  e2\<lparr>world := w4,
                     trace := trace e2 @ [FindElementCall u v,
                                          CommandCall cmdName (AStr newId # tl args)]\<rparr>))"
proof (intro conjI allI impI)
  fix r w1 assume "nxt (world e) = (Inr r, w1)"
  with gc show "interceptAction nxt d elementId cmdName args P e
               = (Inr r, P1, e\<lparr>world := w1, trace := trace e @ [NextCall]\<rparr>)"
    by (simp add: interceptAction_def call_next_def)
next
  fix je w1 ssid store P2 store1 e2
  assume a: "nxt (world e) = (Inl je, w1) \<and> isStaleElementException (DriverError je)
             \<and> getStore P1 d = Inr (ssid, store, P2)
             \<and> checkWatchers d store (e\<lparr>world := w1, trace := trace e @ [NextCall]\<rparr>)
                 = (True, store1, e2)
             \<and> fst (getRef c (resolveId c elementId) (clock e2)) = None"
  then obtain c1 where g: "getRef c (resolveId c elementId) (clock e2) = (None, c1)"
    by (cases "getRef c (resolveId c elementId) (clock e2)") auto
  from a gc g have "interceptAction nxt d elementId cmdName args P e
      = (Inl CacheMissError, put_cache (put_store P2 ssid store1) sid c1, e2)"
    by (simp add: interceptAction_def call_next_def recover_stale_def)
  then show "fst (interceptAction nxt d elementId cmdName args P e) = Inl CacheMissError"
    and "trace (snd (snd (interceptAction nxt d elementId cmdName args P e))) = trace e2"
    by simp_all
next
  fix je w1 ssid store P2 store1 e2 u v t c1 newElement w3 newId r w4
  assume a: "nxt (world e) = (Inl je, w1) \<and> isStaleElementException (DriverError je)
             \<and> getStore P1 d = Inr (ssid, store, P2)
             \<and> checkWatchers d store (e\<lparr>world := w1, trace := trace e @ [NextCall]\<rparr>)
                 = (True, store1, e2)
             \<and> getRef c (resolveId c elementId) (clock e2) = (Some (CachedElementRef u v t), c1)
             \<and> drv_findElement d u v (world e2) = (Inr newElement, w3)
             \<and> extractElementId newElement = Some newId
             \<and> drv_command d cmdName (AStr newId # tl args) w3 = (Inr r, w4)"
  with gc show "interceptAction nxt d elementId cmdName args P e
               = (Inr r, put_cache (put_store P2 ssid store1) sid (setMapping c1 elementId newId),
                  e2\<lparr>world := w4,
                     trace := trace e2 @ [FindElementCall u v,
                                          CommandCall cmdName (AStr newId # tl args)]\<rparr>)"
    by (simp add: interceptAction_def call_next_def recover_stale_def remap_and_retry_def
        call_findElement_def call_command_def)
qed

lemmas action_defs =
  interceptAction_def recover_stale_def remap_and_retry_def resolveId_def host_next_def
  isStaleElementException_def call_findElements_def

text \<open>
  C3 (the code at the failing input). The handler computes the resolved identifier and
  then calls \<open>next\<close>, which cannot receive it. With a table that maps \<open>a\<close> to \<open>b\<close>, a \<open>click\<close>
  on \<open>a\<close> reaches the driver as \<open>click\<close> on \<open>a\<close>. The only use of the resolved identifier is
  as the key of the cache lookup in the recovery, where it makes the lookup miss. In a
  session whose cache holds the locator of \<open>a\<close>, a first stale \<open>click\<close> on \<open>a\<close> is
  recovered: the element is found again as \<open>element-1\<close>, the table maps \<open>a\<close> to
  \<open>element-1\<close>, and the \<open>click\<close> is called on \<open>element-1\<close>. The cache still holds the locator
  under \<open>a\<close> and nothing under \<open>element-1\<close>. The next stale \<open>click\<close> on \<open>a\<close>, with a watcher
  that fires, looks \<open>element-1\<close> up and fails with the recovery-impossible error, without
  any call of the driver after the pass.
\<close>

theorem interceptAction_uses_original_id:
  "resolveId (setMapping example_cache ''a'' ''b'') ''a'' = ''b''
   \<and> getCache example_mapped_plugin example_driver
       = Inr (''session-1'', setMapping example_cache ''a'' ''b'', example_mapped_plugin)
   \<and> (case interceptAction (host_next example_driver ''click'' [AStr ''a'']) example_driver
             ''a'' ''click'' [AStr ''a''] example_mapped_plugin example_env of
        (out, P2, e1) \<Rightarrow>
          out = Inr JUndefined \<and> trace e1 = [NextCall]
          \<and> world e1 = [[AStr ''click'', AStr ''a'']])
   \<and> (case interceptAction example_stale_next example_driver
             ''a'' ''click'' [AStr ''a''] example_cached_plugin example_env of
        (out, P2, e1) \<Rightarrow>
          out = Inr JUndefined
          \<and> map_of (caches P2) ''session-1'' = Some example_recovered_cache
          \<and> trace e1 = [NextCall, CheckWatchersCall, FindElementCall ''id'' ''popup'',
                         FindElementCall ''id'' ''close'',
                         CommandCall ''click'' [AStr ''element-1''], Sleep 100,
                         FindElementCall ''id'' ''submit'',
                         CommandCall ''click'' [AStr ''element-1'']])
   \<and> resolveId example_recovered_cache ''a'' = ''element-1''
   \<and> fst (getRef example_recovered_cache ''a'' 300) = Some (CachedElementRef ''id'' ''submit'' 100)
   \<and> fst (getRef example_recovered_cache ''element-1'' 300) = None
   \<and> (case interceptAction example_stale_next example_driver
             ''a'' ''click'' [AStr ''a''] example_recovered_plugin example_env of
        (out, P2, e1) \<Rightarrow>
          out = Inl CacheMissError
          \<and> clock e1 = 300
          \<and> trace e1 = [NextCall, CheckWatchersCall, FindElementCall ''id'' ''popup'',
                         FindElementCall ''id'' ''close'',
                         CommandCall ''click'' [AStr ''element-1''], Sleep 100])"
  by (simp add: action_defs plugin_defs plugin_example_defs mapping_defs example_defs
      engine_defs store_defs cache_defs Let_def)

end
